theory Spec2Isabelle
  imports Main
begin

section \<open>Data model (internal/models/deployment.go)\<close>

text \<open>
  Identifiers are the canonical textual form of a UUID (what \<^verbatim>\<open>uuid.UUID.String()\<close>
  prints), instants are integers (milliseconds), and an error is the message that
  \<^verbatim>\<open>err.Error()\<close> would print. Go strings are modelled as byte strings, one
  character of the model for each byte of the UTF-8 text. \<^verbatim>\<open>strings.TrimSpace\<close> is
  modelled on all of UTF-8; the other functions that work on runes are modelled on
  ASCII text.
\<close>

type_synonym uuid = string
type_synonym time = int
type_synonym error = string
type_synonym vars = "(string \<times> string) list"

datatype DeploymentStatus =
  DeploymentStatusPending
  | DeploymentStatusRunning
  | DeploymentStatusCompleted
  | DeploymentStatusFailed
  | DeploymentStatusCancelled
  | DeploymentStatusAborted

record Deployment =
  dep_ID :: uuid
  dep_CreatedAt :: time
  dep_UpdatedAt :: time
  dep_Status :: DeploymentStatus
  dep_TargetIP :: string
  dep_SSHUsername :: string
  dep_SSHPasswordEncrypted :: "string option"
  dep_GitHubRepoURL :: string
  dep_GitHubPATEncrypted :: "string option"
  dep_GitHubBranch :: string
  dep_AdditionalVars :: "vars option"
  dep_Port :: int
  dep_ContainerName :: "string option"
  dep_StartedAt :: "time option"
  dep_CompletedAt :: "time option"
  dep_ErrorMessage :: "string option"
  dep_CreatedBy :: "string option"
  dep_ProjectName :: "string option"
  dep_DeploymentName :: "string option"
  dep_UserID :: "uuid option"

record CreateDeploymentRequest =
  req_TargetIP :: string
  req_SSHUsername :: string
  req_SSHPassword :: string
  req_GitHubRepoURL :: string
  req_GitHubPAT :: string
  req_GitHubBranch :: string
  req_Port :: string
  req_ContainerName :: "string option"
  req_ProjectName :: "string option"
  req_DeploymentName :: "string option"
  req_AdditionalVars :: "vars option"

record DeploymentResponse =
  resp_ID :: uuid
  resp_Status :: DeploymentStatus
  resp_TargetIP :: string
  resp_GitHubRepoURL :: string
  resp_GitHubBranch :: string
  resp_Port :: int
  resp_ContainerName :: "string option"
  resp_CreatedAt :: time
  resp_StartedAt :: "time option"
  resp_CompletedAt :: "time option"
  resp_ErrorMessage :: "string option"
  resp_ProjectName :: "string option"
  resp_DeploymentName :: "string option"

record DeploymentLog =
  log_ID :: uuid
  log_DeploymentID :: uuid
  log_CreatedAt :: time
  log_LogLevel :: string
  log_Message :: string
  log_TaskName :: "string option"
  log_StepOrder :: "int option"

record DeploymentStep =
  step_ID :: uuid
  step_DeploymentID :: uuid
  step_StepName :: string
  step_Status :: DeploymentStatus
  step_StartedAt :: "time option"
  step_CompletedAt :: "time option"
  step_DurationMs :: "int option"
  step_ErrorMessage :: "string option"
  step_StepOrder :: int

section \<open>Port conversion (CreateDeploymentRequest.GetPortAsInt)\<close>

text \<open>
  \<^verbatim>\<open>strconv.Atoi\<close> of the Go standard library, on a 64-bit platform: an optional
  sign, then at least one decimal digit and nothing else; a value outside the range of
  \<^verbatim>\<open>int\<close> is a range error. \<open>None\<close> stands for either error.
\<close>

definition isDigit :: "char \<Rightarrow> bool" where
  "isDigit c = (48 \<le> (of_char c :: nat) \<and> (of_char c :: nat) \<le> 57)"

definition digitVal :: "char \<Rightarrow> int" where
  "digitVal c = int (of_char c) - 48"

fun digitsVal :: "int \<Rightarrow> string \<Rightarrow> int option" where
  "digitsVal n [] = Some n"
| "digitsVal n (ch # s) =
     (if isDigit ch then digitsVal (n * 10 + digitVal ch) s else None)"

definition maxInt :: int where
  "maxInt = 9223372036854775807"

definition minInt :: int where
  "minInt = - 9223372036854775808"

definition Atoi :: "string \<Rightarrow> int option" where
  "Atoi s0 =
     (case s0 of
        [] \<Rightarrow> None
      | c # cs \<Rightarrow>
          (let s = (if c = CHR ''-'' \<or> c = CHR ''+'' then cs else s0) in
           if s = [] then None
           else (case digitsVal 0 s of
                   None \<Rightarrow> None
                 | Some n \<Rightarrow>
                     (let v = (if c = CHR ''-'' then - n else n) in
                      if v < minInt \<or> maxInt < v then None else Some v))))"

definition GetPortAsInt :: "'a CreateDeploymentRequest_scheme \<Rightarrow> error + int" where
  "GetPortAsInt r =
     (if req_Port r = [] then Inl ''port is required''
      else (case Atoi (req_Port r) of
              None \<Rightarrow> Inl (''invalid port number: '' @ req_Port r)
            | Some port \<Rightarrow>
                if port < 1 \<or> port > 65535 then Inl ''port must be between 1 and 65535''
                else Inr port))"

text \<open>
  The decimal numeral of an integer (\<^verbatim>\<open>strconv.Itoa\<close>), used to state the claim
  about numeric inputs.
\<close>

definition digitChar :: "nat \<Rightarrow> char" where
  "digitChar d = char_of (48 + d)"

fun decimal :: "nat \<Rightarrow> string" where
  "decimal n = (if n < 10 then [digitChar n] else decimal (n div 10) @ [digitChar (n mod 10)])"

declare decimal.simps [simp del]

definition Itoa :: "int \<Rightarrow> string" where
  "Itoa i = (if i < 0 then CHR ''-'' # decimal (nat (- i)) else decimal (nat i))"


definition example_request :: CreateDeploymentRequest where
  "example_request =
     \<lparr>req_TargetIP = ''10.0.0.5'', req_SSHUsername = ''root'', req_SSHPassword = ''pw'',
      req_GitHubRepoURL = ''https://github.com/x/y.git'', req_GitHubPAT = ''ghp_token'',
      req_GitHubBranch = ''main'', req_Port = ''3000'', req_ContainerName = None,
      req_ProjectName = Some ''p'', req_DeploymentName = Some ''d'',
      req_AdditionalVars = None\<rparr>"

section \<open>Container names (DeploymentService.generateContainerName)\<close>

text \<open>\<^verbatim>\<open>strings.ToLower\<close> on ASCII text.\<close>

definition toLower :: "char \<Rightarrow> char" where
  "toLower c =
     (if 65 \<le> (of_char c :: nat) \<and> (of_char c :: nat) \<le> 90 then char_of ((of_char c :: nat) + 32)
      else c)"

text \<open>
  \<^verbatim>\<open>strings.Trim(s, cutset)\<close>: every leading and every trailing character that
  occurs in the cutset is removed.
\<close>

definition Trim :: "string \<Rightarrow> string \<Rightarrow> string" where
  "Trim s cutset = rev (dropWhile (\<lambda>c. c \<in> set cutset) (rev (dropWhile (\<lambda>c. c \<in> set cutset) s)))"

definition isContainerChar :: "char \<Rightarrow> bool" where
  "isContainerChar r =
     ((97 \<le> (of_char r :: nat) \<and> (of_char r :: nat) \<le> 122)
      \<or> (48 \<le> (of_char r :: nat) \<and> (of_char r :: nat) \<le> 57)
      \<or> r = CHR ''-'')"

definition sanitizeContainerName :: "string \<Rightarrow> string" where
  "sanitizeContainerName name =
     (let result = map (\<lambda>r. if isContainerChar r then r else CHR ''-'') (map toLower name);
          sanitized = Trim result ''-'';
          sanitized = (if sanitized = [] then ''app'' else sanitized)
      in if length sanitized > 50 then take 50 sanitized else sanitized)"

text \<open>A \<^verbatim>\<open>*string\<close> that is neither nil nor empty.\<close>

definition isSet :: "string option \<Rightarrow> bool" where
  "isSet p = (case p of None \<Rightarrow> False | Some s \<Rightarrow> s \<noteq> [])"

definition generateContainerName ::
  "uuid \<Rightarrow> string option \<Rightarrow> string option \<Rightarrow> string option \<Rightarrow> string" where
  "generateContainerName deploymentID containerName projectName deploymentName =
     (if isSet containerName then the containerName
      else if isSet projectName \<and> isSet deploymentName
      then ''deployknot-'' @ sanitizeContainerName (the projectName) @ ''-''
             @ sanitizeContainerName (the deploymentName)
      else ''deployknot-'' @ deploymentID)"

section \<open>The store and the queue\<close>

text \<open>
  The relational tables are lists of rows in insertion order; the Redis list
  \<^verbatim>\<open>deployknot:queue:deployments\<close> is a list of job envelopes, newest first
  (\<^verbatim>\<open>LPUSH\<close>). The payload of a job is the Go map, kept as an association list.
\<close>

datatype JobValue = JString string | JInt int | JNull | JVars vars

record Job =
  job_ID :: uuid
  job_Data :: "(string \<times> JobValue) list"
  job_CreatedAt :: time
  job_DeploymentID :: uuid

record Store =
  deployments :: "Deployment list"
  deployment_steps :: "DeploymentStep list"
  deployment_logs :: "DeploymentLog list"
  queue :: "Job list"

definition emptyStore :: Store where
  "emptyStore = \<lparr>deployments = [], deployment_steps = [], deployment_logs = [], queue = []\<rparr>"

text \<open>
  What a creation call takes from outside the program: the identifiers drawn by
  \<^verbatim>\<open>uuid.New()\<close>, the clock, and the outcome of each write (\<open>None\<close> when the
  database or Redis accepts it, otherwise the error it reports).
\<close>

record CreateEnv =
  env_newID :: uuid
  env_now :: time
  env_stepID :: "string \<Rightarrow> uuid"
  env_jobID :: uuid
  env_insertDeployment :: "error option"
  env_insertStep :: "string \<Rightarrow> error option"
  env_enqueue :: "error option"

section \<open>Repository (internal/database/repository.go)\<close>

definition repo_CreateDeployment :: "CreateEnv \<Rightarrow> Deployment \<Rightarrow> Store \<Rightarrow> error + Store" where
  "repo_CreateDeployment env deployment st =
     (case env_insertDeployment env of
        Some e \<Rightarrow> Inl (''failed to create deployment: '' @ e)
      | None \<Rightarrow> Inr (st\<lparr>deployments := deployments st @ [deployment]\<rparr>))"

definition repo_CreateDeploymentStep :: "CreateEnv \<Rightarrow> DeploymentStep \<Rightarrow> Store \<Rightarrow> error + Store" where
  "repo_CreateDeploymentStep env step st =
     (case env_insertStep env (step_StepName step) of
        Some e \<Rightarrow> Inl (''failed to create deployment step: '' @ e)
      | None \<Rightarrow> Inr (st\<lparr>deployment_steps := deployment_steps st @ [step]\<rparr>))"

text \<open>
  A read takes the outcome of the query as \<open>qerr\<close>: \<open>Some e\<close> when the database
  reports the error \<open>e\<close>. \<^verbatim>\<open>QueryRow\<close> yields the first matching row, and
  \<^verbatim>\<open>sql.ErrNoRows\<close> when there is none.
\<close>

definition repo_GetDeployment :: "error option \<Rightarrow> Store \<Rightarrow> uuid \<Rightarrow> error + Deployment" where
  "repo_GetDeployment qerr st i =
     (case qerr of
        Some e \<Rightarrow> Inl (''failed to get deployment: '' @ e)
      | None \<Rightarrow>
          (case find (\<lambda>d. dep_ID d = i) (deployments st) of
             None \<Rightarrow> Inl ''deployment not found''
           | Some d \<Rightarrow> Inr (d\<lparr>dep_UserID := None\<rparr>)))"

text \<open>
  \<^verbatim>\<open>ORDER BY created_at DESC LIMIT $2 OFFSET $3\<close>: rows of equal \<open>created_at\<close> are
  kept in insertion order.
\<close>

definition repo_GetDeploymentsByUserID ::
  "error option \<Rightarrow> Store \<Rightarrow> uuid \<Rightarrow> nat \<Rightarrow> nat \<Rightarrow> error + Deployment list" where
  "repo_GetDeploymentsByUserID qerr st userID limit offset =
     (case qerr of
        Some e \<Rightarrow> Inl (''failed to get deployments by user: '' @ e)
      | None \<Rightarrow>
          Inr (take limit (drop offset
                 (sort_key (\<lambda>d. - dep_CreatedAt d)
                    (filter (\<lambda>d. dep_UserID d = Some userID) (deployments st))))))"

definition repo_GetDeploymentSteps :: "error option \<Rightarrow> Store \<Rightarrow> uuid \<Rightarrow> error + DeploymentStep list" where
  "repo_GetDeploymentSteps qerr st deploymentID =
     (case qerr of
        Some e \<Rightarrow> Inl (''failed to get deployment steps: '' @ e)
      | None \<Rightarrow>
          Inr (sort_key step_StepOrder
                 (filter (\<lambda>s. step_DeploymentID s = deploymentID) (deployment_steps st))))"

text \<open>\<^verbatim>\<open>UPDATE deployment_steps SET status, started_at, ... WHERE id = $1\<close>.\<close>

definition repo_UpdateDeploymentStep :: "error option \<Rightarrow> DeploymentStep \<Rightarrow> Store \<Rightarrow> error + Store" where
  "repo_UpdateDeploymentStep werr step st =
     (case werr of
        Some e \<Rightarrow> Inl (''failed to update deployment step: '' @ e)
      | None \<Rightarrow>
          Inr (st\<lparr>deployment_steps :=
                 map (\<lambda>r. if step_ID r = step_ID step
                          then r\<lparr>step_Status := step_Status step,
                                 step_StartedAt := step_StartedAt step,
                                 step_CompletedAt := step_CompletedAt step,
                                 step_DurationMs := step_DurationMs step,
                                 step_ErrorMessage := step_ErrorMessage step\<rparr>
                          else r)
                   (deployment_steps st)\<rparr>))"

text \<open>\<^verbatim>\<open>UPDATE deployments SET status, updated_at, error_message WHERE id = $1\<close>.\<close>

definition repo_UpdateDeploymentStatus ::
  "error option \<Rightarrow> time \<Rightarrow> uuid \<Rightarrow> DeploymentStatus \<Rightarrow> string option \<Rightarrow> Store \<Rightarrow> error + Store" where
  "repo_UpdateDeploymentStatus werr now i status errorMessage st =
     (case werr of
        Some e \<Rightarrow> Inl (''failed to update deployment status: '' @ e)
      | None \<Rightarrow>
          Inr (st\<lparr>deployments :=
                 map (\<lambda>d. if dep_ID d = i
                          then d\<lparr>dep_Status := status, dep_UpdatedAt := now,
                                 dep_ErrorMessage := errorMessage\<rparr>
                          else d)
                   (deployments st)\<rparr>))"

text \<open>\<^verbatim>\<open>ORDER BY created_at ASC LIMIT $2\<close> over the logs of one deployment.\<close>

definition repo_GetDeploymentLogs ::
  "error option \<Rightarrow> Store \<Rightarrow> uuid \<Rightarrow> nat \<Rightarrow> error + DeploymentLog list" where
  "repo_GetDeploymentLogs qerr st deploymentID limit =
     (case qerr of
        Some e \<Rightarrow> Inl (''failed to get deployment logs: '' @ e)
      | None \<Rightarrow>
          Inr (take limit
                 (sort_key log_CreatedAt
                    (filter (\<lambda>l. log_DeploymentID l = deploymentID) (deployment_logs st)))))"

section \<open>Deployment service (internal/services/deployment.go)\<close>

definition stepTable :: "(string \<times> int) list" where
  "stepTable =
     [(''validate_credentials'', 1), (''git_clone'', 2), (''docker_build'', 3),
      (''docker_run'', 4), (''health_check'', 5)]"

text \<open>
  The loop of \<^verbatim>\<open>createInitialSteps\<close>: it returns at the first write that fails, and
  the rows written before it stay.
\<close>

definition newStep :: "CreateEnv \<Rightarrow> uuid \<Rightarrow> string \<Rightarrow> int \<Rightarrow> DeploymentStep" where
  "newStep env deploymentID name ord =
     \<lparr>step_ID = env_stepID env name, step_DeploymentID = deploymentID,
      step_StepName = name, step_Status = DeploymentStatusPending,
      step_StartedAt = None, step_CompletedAt = None, step_DurationMs = None,
      step_ErrorMessage = None, step_StepOrder = ord\<rparr>"

fun createSteps :: "CreateEnv \<Rightarrow> uuid \<Rightarrow> (string \<times> int) list \<Rightarrow> Store \<Rightarrow> error option \<times> Store" where
  "createSteps env deploymentID [] st = (None, st)"
| "createSteps env deploymentID ((name, ord) # rest) st =
     (case repo_CreateDeploymentStep env (newStep env deploymentID name ord) st of
        Inl e \<Rightarrow> (Some (''failed to create step '' @ name @ '': '' @ e), st)
      | Inr st' \<Rightarrow> createSteps env deploymentID rest st')"

definition createInitialSteps :: "CreateEnv \<Rightarrow> uuid \<Rightarrow> Store \<Rightarrow> error option \<times> Store" where
  "createInitialSteps env deploymentID st = createSteps env deploymentID stepTable st"

definition strPtr :: "string option \<Rightarrow> JobValue" where
  "strPtr p = (case p of None \<Rightarrow> JNull | Some s \<Rightarrow> JString s)"

definition varsVal :: "vars option \<Rightarrow> JobValue" where
  "varsVal p = (case p of None \<Rightarrow> JNull | Some v \<Rightarrow> JVars v)"

definition deploymentData ::
  "'a CreateDeploymentRequest_scheme \<Rightarrow> int \<Rightarrow> string \<Rightarrow> (string \<times> JobValue) list" where
  "deploymentData req port containerName =
     [(''target_ip'', JString (req_TargetIP req)),
      (''ssh_username'', JString (req_SSHUsername req)),
      (''ssh_password'', JString (req_SSHPassword req)),
      (''github_repo_url'', JString (req_GitHubRepoURL req)),
      (''github_pat'', JString (req_GitHubPAT req)),
      (''github_branch'', JString (req_GitHubBranch req)),
      (''port'', JInt port),
      (''container_name'', JString containerName),
      (''project_name'', strPtr (req_ProjectName req)),
      (''deployment_name'', strPtr (req_DeploymentName req)),
      (''additional_vars'', varsVal (req_AdditionalVars req))]"

text \<open>\<^verbatim>\<open>QueueService.EnqueueDeploymentJob\<close> (internal/services/queue.go).\<close>

definition EnqueueDeploymentJob ::
  "CreateEnv \<Rightarrow> uuid \<Rightarrow> (string \<times> JobValue) list \<Rightarrow> Store \<Rightarrow> error option \<times> Store" where
  "EnqueueDeploymentJob env deploymentID data st =
     (case env_enqueue env of
        Some e \<Rightarrow> (Some (''failed to enqueue job: '' @ e), st)
      | None \<Rightarrow>
          (None,
           st\<lparr>queue := \<lparr>job_ID = env_jobID env, job_Data = data, job_CreatedAt = env_now env,
                         job_DeploymentID = deploymentID\<rparr> # queue st\<rparr>))"

definition newDeployment ::
  "'a CreateDeploymentRequest_scheme \<Rightarrow> uuid \<Rightarrow> time \<Rightarrow> int \<Rightarrow> string \<Rightarrow> uuid option \<Rightarrow> Deployment" where
  "newDeployment req deploymentID now port containerName userID =
     \<lparr>dep_ID = deploymentID, dep_CreatedAt = now, dep_UpdatedAt = now,
      dep_Status = DeploymentStatusPending, dep_TargetIP = req_TargetIP req,
      dep_SSHUsername = req_SSHUsername req,
      dep_SSHPasswordEncrypted = Some (req_SSHPassword req),
      dep_GitHubRepoURL = req_GitHubRepoURL req,
      dep_GitHubPATEncrypted = Some (req_GitHubPAT req),
      dep_GitHubBranch = req_GitHubBranch req,
      dep_AdditionalVars = req_AdditionalVars req, dep_Port = port,
      dep_ContainerName = Some containerName, dep_StartedAt = None, dep_CompletedAt = None,
      dep_ErrorMessage = None, dep_CreatedBy = None, dep_ProjectName = req_ProjectName req,
      dep_DeploymentName = req_DeploymentName req, dep_UserID = userID\<rparr>"

definition creationResponse ::
  "'a CreateDeploymentRequest_scheme \<Rightarrow> uuid \<Rightarrow> time \<Rightarrow> int \<Rightarrow> string \<Rightarrow> DeploymentResponse" where
  "creationResponse req deploymentID now port containerName =
     \<lparr>resp_ID = deploymentID, resp_Status = DeploymentStatusPending,
      resp_TargetIP = req_TargetIP req, resp_GitHubRepoURL = req_GitHubRepoURL req,
      resp_GitHubBranch = req_GitHubBranch req, resp_Port = port,
      resp_ContainerName = Some containerName, resp_CreatedAt = now, resp_StartedAt = None,
      resp_CompletedAt = None, resp_ErrorMessage = None,
      resp_ProjectName = req_ProjectName req, resp_DeploymentName = req_DeploymentName req\<rparr>"

text \<open>
  The body shared by \<^verbatim>\<open>CreateDeployment\<close> and \<^verbatim>\<open>CreateDeploymentWithEnvFile\<close>,
  which differ in the user id stored and in the \<^verbatim>\<open>env_file_path\<close> entry of the job.
  The errors of \<^verbatim>\<open>createInitialSteps\<close> and of the enqueue are logged and dropped.
\<close>

definition createWith ::
  "CreateEnv \<Rightarrow> 'a CreateDeploymentRequest_scheme \<Rightarrow> uuid option \<Rightarrow> (string \<times> JobValue) list
     \<Rightarrow> Store \<Rightarrow> (error + DeploymentResponse) \<times> Store" where
  "createWith env req userID extra st =
     (case GetPortAsInt req of
        Inl e \<Rightarrow> (Inl (''invalid port: '' @ e), st)
      | Inr port \<Rightarrow>
          (let deploymentID = env_newID env;
               now = env_now env;
               containerName = generateContainerName deploymentID (req_ContainerName req)
                                 (req_ProjectName req) (req_DeploymentName req)
           in case repo_CreateDeployment env
                     (newDeployment req deploymentID now port containerName userID) st of
                Inl e \<Rightarrow> (Inl (''failed to create deployment: '' @ e), st)
              | Inr st1 \<Rightarrow>
                  (let st2 = snd (createInitialSteps env deploymentID st1);
                       st3 = snd (EnqueueDeploymentJob env deploymentID
                                    (deploymentData req port containerName @ extra) st2)
                   in (Inr (creationResponse req deploymentID now port containerName), st3))))"

definition CreateDeployment ::
  "CreateEnv \<Rightarrow> 'a CreateDeploymentRequest_scheme \<Rightarrow> Store \<Rightarrow> (error + DeploymentResponse) \<times> Store" where
  "CreateDeployment env req st = createWith env req None [] st"

definition CreateDeploymentWithEnvFile ::
  "CreateEnv \<Rightarrow> 'a CreateDeploymentRequest_scheme \<Rightarrow> string \<Rightarrow> uuid \<Rightarrow> Store
     \<Rightarrow> (error + DeploymentResponse) \<times> Store" where
  "CreateDeploymentWithEnvFile env req envFilePath userID st =
     createWith env req (Some userID)
       (if envFilePath \<noteq> [] then [(''env_file_path'', JString envFilePath)] else []) st"

definition toResponse :: "Deployment \<Rightarrow> DeploymentResponse" where
  "toResponse deployment =
     \<lparr>resp_ID = dep_ID deployment, resp_Status = dep_Status deployment,
      resp_TargetIP = dep_TargetIP deployment, resp_GitHubRepoURL = dep_GitHubRepoURL deployment,
      resp_GitHubBranch = dep_GitHubBranch deployment, resp_Port = dep_Port deployment,
      resp_ContainerName = dep_ContainerName deployment,
      resp_CreatedAt = dep_CreatedAt deployment, resp_StartedAt = dep_StartedAt deployment,
      resp_CompletedAt = dep_CompletedAt deployment,
      resp_ErrorMessage = dep_ErrorMessage deployment,
      resp_ProjectName = dep_ProjectName deployment,
      resp_DeploymentName = dep_DeploymentName deployment\<rparr>"

definition service_GetDeployment :: "error option \<Rightarrow> Store \<Rightarrow> uuid \<Rightarrow> error + DeploymentResponse" where
  "service_GetDeployment qerr st i =
     (case repo_GetDeployment qerr st i of
        Inl e \<Rightarrow> Inl (''failed to get deployment: '' @ e)
      | Inr deployment \<Rightarrow> Inr (toResponse deployment))"

definition GetDeploymentsByUser ::
  "error option \<Rightarrow> Store \<Rightarrow> uuid \<Rightarrow> nat \<Rightarrow> nat \<Rightarrow> error + DeploymentResponse list" where
  "GetDeploymentsByUser qerr st userID limit offset =
     (case repo_GetDeploymentsByUserID qerr st userID limit offset of
        Inl e \<Rightarrow> Inl (''failed to get deployments by user: '' @ e)
      | Inr ds \<Rightarrow> Inr (map toResponse ds))"

definition service_GetDeploymentSteps :: "error option \<Rightarrow> Store \<Rightarrow> uuid \<Rightarrow> error + DeploymentStep list" where
  "service_GetDeploymentSteps qerr st deploymentID =
     (case repo_GetDeploymentSteps qerr st deploymentID of
        Inl e \<Rightarrow> Inl (''failed to get deployment steps: '' @ e)
      | Inr steps \<Rightarrow> Inr steps)"

definition service_GetDeploymentLogs ::
  "error option \<Rightarrow> Store \<Rightarrow> uuid \<Rightarrow> nat \<Rightarrow> error + DeploymentLog list" where
  "service_GetDeploymentLogs qerr st deploymentID limit =
     (case repo_GetDeploymentLogs qerr st deploymentID limit of
        Inl e \<Rightarrow> Inl (''failed to get deployment logs: '' @ e)
      | Inr logs \<Rightarrow> Inr logs)"

section \<open>HTTP handler of GET /api/v1/deployments/:id\<close>

text \<open>
  \<^verbatim>\<open>uuid.Parse\<close> of github.com/google/uuid: the canonical 36-character form, the
  same with the prefix \<^verbatim>\<open>urn:uuid:\<close> or between two enclosing characters, or 32
  hexadecimal digits. The result is the identifier in canonical lower-case form.
\<close>

definition isHex :: "char \<Rightarrow> bool" where
  "isHex c =
     (let n = (of_char c :: nat)
      in (48 \<le> n \<and> n \<le> 57) \<or> (97 \<le> n \<and> n \<le> 102) \<or> (65 \<le> n \<and> n \<le> 70))"

definition hyphenAt :: "nat list" where
  "hyphenAt = [8, 13, 18, 23]"

definition parse36 :: "string \<Rightarrow> uuid option" where
  "parse36 s =
     (if list_all (\<lambda>i. if i \<in> set hyphenAt then s ! i = CHR ''-'' else isHex (s ! i)) [0..<36]
      then Some (map toLower (take 36 s)) else None)"

definition uuid_Parse :: "string \<Rightarrow> uuid option" where
  "uuid_Parse s =
     (if length s = 36 then parse36 s
      else if length s = 45 then
        (if map toLower (take 9 s) = ''urn:uuid:'' then parse36 (drop 9 s) else None)
      else if length s = 38 then parse36 (drop 1 s)
      else if length s = 32 then
        (if list_all isHex s
         then Some (map toLower (take 8 s @ ''-'' @ take 4 (drop 8 s) @ ''-'' @ take 4 (drop 12 s)
                                 @ ''-'' @ take 4 (drop 16 s) @ ''-'' @ drop 20 s))
         else None)
      else None)"

text \<open>The status code and the body: an error title, or the deployment.\<close>

definition handler_GetDeployment ::
  "error option \<Rightarrow> Store \<Rightarrow> string \<Rightarrow> nat \<times> (string + DeploymentResponse)" where
  "handler_GetDeployment qerr st idStr =
     (case uuid_Parse idStr of
        None \<Rightarrow> (400, Inl ''Invalid deployment ID'')
      | Some i \<Rightarrow>
          (case service_GetDeployment qerr st i of
             Inl e \<Rightarrow>
               if e = ''deployment not found'' then (404, Inl ''Deployment not found'')
               else (500, Inl ''Failed to get deployment'')
           | Inr deployment \<Rightarrow> (200, Inr deployment)))"

section \<open>Worker: step bookkeeping\<close>

text \<open>
  What one run of the worker takes from outside the program. The clock and the
  outcome of a write are given per step order and status written (order 0 stands for
  the deployment row), the outcome of reading the step table once for the run.

  The clone stage is modelled with the command line it sends: \<open>w_cleanupSession\<close> and
  \<open>w_cloneSession\<close> are the outcomes of its two calls of \<^verbatim>\<open>sshClient.NewSession()\<close>,
  \<open>w_combinedOutput\<close> is the remote host, which answers a command line with the error
  of \<^verbatim>\<open>session.CombinedOutput\<close> (if any) and the combined output, and \<open>w_urlParse\<close>
  is \<^verbatim>\<open>url.Parse\<close> of the standard library, reduced to the host and the path of the
  URL it returns (\<open>None\<close> when it returns an error).

  The remote work of each later stage is summarised by its outcome: it succeeds, it
  fails after the stage has recorded the failure on its step row, or it fails on a
  path that returns the error without touching the row (\<^verbatim>\<open>docker --version\<close>
  failing in \<^verbatim>\<open>runDockerContainer\<close>). Log rows are not part of this model:
  appending them changes neither a step row nor a deployment row.
\<close>

datatype outcome = Succeeds | FailsRecorded string | FailsUnrecorded string

record WorkerEnv =
  w_clock :: "int \<Rightarrow> DeploymentStatus \<Rightarrow> time"
  w_getSteps :: "error option"
  w_updateStep :: "int \<Rightarrow> DeploymentStatus \<Rightarrow> error option"
  w_updateStatus :: "DeploymentStatus \<Rightarrow> error option"
  w_ssh :: "error option"
  w_cleanupSession :: "error option"
  w_cloneSession :: "error option"
  w_urlParse :: "string \<Rightarrow> (string \<times> string) option"
  w_combinedOutput :: "string \<Rightarrow> error option \<times> string"
  w_build :: outcome
  w_copyEnv :: "error option"
  w_runEnvFile :: outcome
  w_run :: outcome
  w_health :: outcome

definition service_UpdateDeploymentStep :: "error option \<Rightarrow> DeploymentStep \<Rightarrow> Store \<Rightarrow> error + Store" where
  "service_UpdateDeploymentStep werr step st =
     (case repo_UpdateDeploymentStep werr step st of
        Inl e \<Rightarrow> Inl (''failed to update deployment step: '' @ e)
      | Inr st' \<Rightarrow> Inr st')"

definition service_UpdateDeploymentStatus ::
  "error option \<Rightarrow> time \<Rightarrow> uuid \<Rightarrow> DeploymentStatus \<Rightarrow> string option \<Rightarrow> Store \<Rightarrow> error + Store" where
  "service_UpdateDeploymentStatus werr now i status errorMessage st =
     (case repo_UpdateDeploymentStatus werr now i status errorMessage st of
        Inl e \<Rightarrow> Inl (''failed to update deployment status: '' @ e)
      | Inr st' \<Rightarrow> Inr st')"

text \<open>The timing fields set when a step row is closed.\<close>

definition stampCompleted :: "time \<Rightarrow> DeploymentStep \<Rightarrow> DeploymentStep" where
  "stampCompleted now step =
     step\<lparr>step_CompletedAt := Some now,
          step_DurationMs := (case step_StartedAt step of
                                None \<Rightarrow> step_DurationMs step
                              | Some started \<Rightarrow> Some (now - started))\<rparr>"

definition setStepStatus ::
  "time \<Rightarrow> DeploymentStatus \<Rightarrow> string option \<Rightarrow> DeploymentStep \<Rightarrow> DeploymentStep" where
  "setStepStatus now status errorMessage targetStep =
     (let t = targetStep\<lparr>step_Status := status, step_ErrorMessage := errorMessage\<rparr>
      in if status = DeploymentStatusRunning then t\<lparr>step_StartedAt := Some now\<rparr>
         else if status = DeploymentStatusCompleted \<or> status = DeploymentStatusFailed
         then stampCompleted now t
         else t)"

definition updateDeploymentStep ::
  "WorkerEnv \<Rightarrow> uuid \<Rightarrow> int \<Rightarrow> DeploymentStatus \<Rightarrow> string option \<Rightarrow> Store \<Rightarrow> error option \<times> Store" where
  "updateDeploymentStep env deploymentID stepOrder status errorMessage st =
     (case service_GetDeploymentSteps (w_getSteps env) st deploymentID of
        Inl e \<Rightarrow> (Some e, st)
      | Inr steps \<Rightarrow>
          (case find (\<lambda>s. step_StepOrder s = stepOrder) steps of
             None \<Rightarrow> (Some ''step not found'', st)
           | Some targetStep \<Rightarrow>
               (case service_UpdateDeploymentStep (w_updateStep env stepOrder status)
                       (setStepStatus (w_clock env stepOrder status) status errorMessage targetStep)
                       st of
                  Inl e \<Rightarrow> (Some e, st)
                | Inr st' \<Rightarrow> (None, st'))))"

definition abandonedMsg :: "int \<Rightarrow> string" where
  "abandonedMsg failedStepOrder = ''Step abandoned due to failure in step '' @ Itoa failedStepOrder"

text \<open>
  The guard of \<^verbatim>\<open>markRemainingStepsAsFailed\<close>; in Go \<^verbatim>\<open>&&\<close> binds tighter than
  \<^verbatim>\<open>||\<close>.
\<close>

definition remainingGuard :: "int \<Rightarrow> DeploymentStep \<Rightarrow> bool" where
  "remainingGuard failedStepOrder step =
     ((step_StepOrder step > failedStepOrder \<and> step_Status step = DeploymentStatusPending)
      \<or> step_Status step = DeploymentStatusRunning)"

fun markRemainingLoop :: "WorkerEnv \<Rightarrow> uuid \<Rightarrow> int \<Rightarrow> DeploymentStep list \<Rightarrow> Store \<Rightarrow> Store" where
  "markRemainingLoop env deploymentID failedStepOrder [] st = st"
| "markRemainingLoop env deploymentID failedStepOrder (step # steps) st =
     markRemainingLoop env deploymentID failedStepOrder steps
       (if remainingGuard failedStepOrder step
        then snd (updateDeploymentStep env deploymentID (step_StepOrder step)
                    DeploymentStatusFailed (Some (abandonedMsg failedStepOrder)) st)
        else st)"

definition markRemainingStepsAsFailed :: "WorkerEnv \<Rightarrow> uuid \<Rightarrow> int \<Rightarrow> Store \<Rightarrow> Store" where
  "markRemainingStepsAsFailed env deploymentID failedStepOrder st =
     (case service_GetDeploymentSteps (w_getSteps env) st deploymentID of
        Inl e \<Rightarrow> st
      | Inr steps \<Rightarrow> markRemainingLoop env deploymentID failedStepOrder steps st)"

fun markAllLoop :: "WorkerEnv \<Rightarrow> uuid \<Rightarrow> string \<Rightarrow> DeploymentStep list \<Rightarrow> Store \<Rightarrow> Store" where
  "markAllLoop env deploymentID errorMsg [] st = st"
| "markAllLoop env deploymentID errorMsg (step # steps) st =
     markAllLoop env deploymentID errorMsg steps
       (if step_Status step \<noteq> DeploymentStatusCompleted \<and> step_Status step \<noteq> DeploymentStatusFailed
        then snd (updateDeploymentStep env deploymentID (step_StepOrder step)
                    DeploymentStatusFailed (Some errorMsg) st)
        else st)"

definition markAllStepsAsFailed :: "WorkerEnv \<Rightarrow> uuid \<Rightarrow> string \<Rightarrow> Store \<Rightarrow> Store" where
  "markAllStepsAsFailed env deploymentID errorMsg st =
     (case service_GetDeploymentSteps (w_getSteps env) st deploymentID of
        Inl e \<Rightarrow> st
      | Inr steps \<Rightarrow> markAllLoop env deploymentID errorMsg steps st)"

text \<open>
  \<^verbatim>\<open>markStepAsFailed\<close> goes on with no rows when reading the steps fails, and then
  finds no step.
\<close>

definition markStepAsFailed :: "WorkerEnv \<Rightarrow> int \<Rightarrow> uuid \<Rightarrow> string \<Rightarrow> Store \<Rightarrow> error option \<times> Store" where
  "markStepAsFailed env stepOrder deploymentID errorMsg st =
     (let steps = (case service_GetDeploymentSteps (w_getSteps env) st deploymentID of
                     Inl e \<Rightarrow> []
                   | Inr steps \<Rightarrow> steps)
      in case find (\<lambda>s. step_StepOrder s = stepOrder) steps of
           None \<Rightarrow> (Some ''step not found'', st)
         | Some targetStep \<Rightarrow>
             (case service_UpdateDeploymentStep (w_updateStep env stepOrder DeploymentStatusFailed)
                     (stampCompleted (w_clock env stepOrder DeploymentStatusFailed)
                        (targetStep\<lparr>step_Status := DeploymentStatusFailed,
                                    step_ErrorMessage := Some errorMsg\<rparr>))
                     st of
                Inl e \<Rightarrow> (Some e, st)
              | Inr st' \<Rightarrow> (None, st')))"

section \<open>Worker: the pipeline\<close>

text \<open>
  A stage that owns step \<open>stepOrder\<close>: the row is set running, then completed, or
  failed with the reason, or left as it is on the unrecorded path. The errors of the
  row updates are logged and dropped.
\<close>

definition runStage :: "WorkerEnv \<Rightarrow> uuid \<Rightarrow> int \<Rightarrow> outcome \<Rightarrow> Store \<Rightarrow> error option \<times> Store" where
  "runStage env deploymentID stepOrder out st =
     (let st1 = snd (updateDeploymentStep env deploymentID stepOrder DeploymentStatusRunning None st)
      in case out of
           Succeeds \<Rightarrow>
             (None, snd (updateDeploymentStep env deploymentID stepOrder
                           DeploymentStatusCompleted None st1))
         | FailsRecorded errorMsg \<Rightarrow>
             (Some errorMsg, snd (updateDeploymentStep env deploymentID stepOrder
                                    DeploymentStatusFailed (Some errorMsg) st1))
         | FailsUnrecorded errorMsg \<Rightarrow> (Some errorMsg, st1))"

text \<open>\<^verbatim>\<open>strings.TrimPrefix\<close> and \<^verbatim>\<open>strings.TrimSuffix\<close>.\<close>

definition TrimPrefix :: "string \<Rightarrow> string \<Rightarrow> string" where
  "TrimPrefix s prefix =
     (if take (length prefix) s = prefix then drop (length prefix) s else s)"

definition TrimSuffix :: "string \<Rightarrow> string \<Rightarrow> string" where
  "TrimSuffix s suffix =
     (if length suffix \<le> length s \<and> drop (length s - length suffix) s = suffix
      then take (length s - length suffix) s else s)"

definition normalizeRepoURL :: "WorkerEnv \<Rightarrow> string \<Rightarrow> string" where
  "normalizeRepoURL env raw =
     (let raw1 = (case w_urlParse env raw of
                    Some (host, path) \<Rightarrow> if host \<noteq> [] then TrimPrefix path ''/'' else raw
                  | None \<Rightarrow> raw)
      in TrimSuffix (TrimPrefix raw1 ''/'') ''.git'')"

text \<open>
  \<^verbatim>\<open>cloneRepository\<close>. The clone command holds the token; when the remote command
  fails, its error and its combined output go into the error message of step 1 and
  into the error returned. The output of the cleanup command goes to a log row only.
\<close>

definition cloneRepository ::
  "WorkerEnv \<Rightarrow> uuid \<Rightarrow> string \<Rightarrow> string \<Rightarrow> string \<Rightarrow> Store \<Rightarrow> error option \<times> Store" where
  "cloneRepository env deploymentID repoURL pat branch st =
     (let st1 = snd (updateDeploymentStep env deploymentID 1 DeploymentStatusRunning None st)
      in case w_cleanupSession env of
           Some e \<Rightarrow>
             (Some (''failed to create SSH session for cleanup: '' @ e),
              snd (updateDeploymentStep env deploymentID 1 DeploymentStatusFailed
                     (Some ''Failed to create SSH session for cleanup'') st1))
         | None \<Rightarrow>
             (case w_cloneSession env of
                Some e \<Rightarrow>
                  (Some (''failed to create SSH session: '' @ e),
                   snd (updateDeploymentStep env deploymentID 1 DeploymentStatusFailed
                          (Some ''Failed to create SSH session for cloning'') st1))
              | None \<Rightarrow>
                  (let normalized = normalizeRepoURL env repoURL;
                       cloneCmd = ''git clone https://'' @ pat @ ''@github.com/'' @ normalized
                                    @ ''.git /tmp/deployknot-app''
                                    @ (if branch \<noteq> ''main''
                                       then '' && cd /tmp/deployknot-app && git checkout '' @ branch
                                       else [])
                   in case w_combinedOutput env cloneCmd of
                        (Some err, output) \<Rightarrow>
                          (Some (''git clone failed: '' @ err @ '', output: '' @ output),
                           snd (updateDeploymentStep env deploymentID 1 DeploymentStatusFailed
                                  (Some (''Git clone failed: '' @ err @ '', output: '' @ output))
                                  st1))
                      | (None, output) \<Rightarrow>
                          (None,
                           snd (updateDeploymentStep env deploymentID 1
                                  DeploymentStatusCompleted None st1)))))"

definition buildDockerImage :: "WorkerEnv \<Rightarrow> uuid \<Rightarrow> Store \<Rightarrow> error option \<times> Store" where
  "buildDockerImage env deploymentID st = runStage env deploymentID 2 (w_build env) st"

definition runDockerContainer :: "WorkerEnv \<Rightarrow> uuid \<Rightarrow> Store \<Rightarrow> error option \<times> Store" where
  "runDockerContainer env deploymentID st = runStage env deploymentID 3 (w_run env) st"

definition runDockerContainerWithEnvFile :: "WorkerEnv \<Rightarrow> uuid \<Rightarrow> Store \<Rightarrow> error option \<times> Store" where
  "runDockerContainerWithEnvFile env deploymentID st =
     runStage env deploymentID 3 (w_runEnvFile env) st"

definition healthCheck :: "WorkerEnv \<Rightarrow> uuid \<Rightarrow> Store \<Rightarrow> error option \<times> Store" where
  "healthCheck env deploymentID st = runStage env deploymentID 4 (w_health env) st"

definition executeDeploymentSteps ::
  "WorkerEnv \<Rightarrow> uuid \<Rightarrow> string \<Rightarrow> string \<Rightarrow> string \<Rightarrow> string \<Rightarrow> Store
     \<Rightarrow> error option \<times> Store" where
  "executeDeploymentSteps env deploymentID repoURL pat branch envFilePath st =
     (case cloneRepository env deploymentID repoURL pat branch st of
        (Some e, st1) \<Rightarrow>
          (Some (''failed to clone repository: '' @ e),
           markRemainingStepsAsFailed env deploymentID 1 st1)
      | (None, st1) \<Rightarrow>
     (case buildDockerImage env deploymentID st1 of
        (Some e, st2) \<Rightarrow>
          (Some (''failed to build Docker image: '' @ e),
           markRemainingStepsAsFailed env deploymentID 2 st2)
      | (None, st2) \<Rightarrow>
     (case (if envFilePath \<noteq> []
            then (case w_copyEnv env of
                    Some e \<Rightarrow> (Some (''failed to copy env file to target: '' @ e), st2)
                  | None \<Rightarrow>
                      (case runDockerContainerWithEnvFile env deploymentID st2 of
                         (Some e, st3) \<Rightarrow>
                           (Some (''failed to run Docker container with env file: '' @ e), st3)
                       | (None, st3) \<Rightarrow> (None, st3)))
            else (case runDockerContainer env deploymentID st2 of
                    (Some e, st3) \<Rightarrow> (Some (''failed to run Docker container: '' @ e), st3)
                  | (None, st3) \<Rightarrow> (None, st3))) of
        (Some e, st3) \<Rightarrow> (Some e, markRemainingStepsAsFailed env deploymentID 3 st3)
      | (None, st3) \<Rightarrow>
     (case healthCheck env deploymentID st3 of
        (Some e, st4) \<Rightarrow>
          (Some (''health check failed: '' @ e),
           markRemainingStepsAsFailed env deploymentID 4 st4)
      | (None, st4) \<Rightarrow> (None, st4)))))"

text \<open>\<^verbatim>\<open>getStringFromMap\<close> on the payload of a job.\<close>

definition getStringFromMap :: "(string \<times> JobValue) list \<Rightarrow> string \<Rightarrow> string" where
  "getStringFromMap m key =
     (case map_of m key of
        Some (JString val) \<Rightarrow> val
      | Some (JInt val) \<Rightarrow> Itoa val
      | Some (JVars val) \<Rightarrow>
          ''map['' @ concat (map (\<lambda>(k, v). k @ '':'' @ v @ '' '') val) @ '']''
      | _ \<Rightarrow> [])"

definition processDeploymentJob :: "WorkerEnv \<Rightarrow> 'a Job_scheme \<Rightarrow> Store \<Rightarrow> error option \<times> Store" where
  "processDeploymentJob env job st =
     (let d = job_DeploymentID job in
      case service_UpdateDeploymentStatus (w_updateStatus env DeploymentStatusRunning)
             (w_clock env 0 DeploymentStatusRunning) d DeploymentStatusRunning None st of
        Inl e \<Rightarrow> (Some (''failed to update deployment status: '' @ e), st)
      | Inr st1 \<Rightarrow>
          if list_ex (\<lambda>key. getStringFromMap (job_Data job) key = [])
               [''target_ip'', ''ssh_username'', ''ssh_password'', ''github_repo_url'',
                ''github_pat'', ''github_branch'']
          then (Some ''missing required deployment parameters'',
                markAllStepsAsFailed env d ''missing required deployment parameters'' st1)
          else
            (case w_ssh env of
               Some e \<Rightarrow>
                 (let errorMsg = ''Failed to connect to target server: failed to dial SSH: '' @ e;
                      st2 = snd (markStepAsFailed env 1 d errorMsg st1);
                      st3 = markRemainingStepsAsFailed env d 1 st2;
                      st4 = (case service_UpdateDeploymentStatus
                                    (w_updateStatus env DeploymentStatusFailed)
                                    (w_clock env 0 DeploymentStatusFailed) d
                                    DeploymentStatusFailed (Some errorMsg) st3 of
                               Inl e' \<Rightarrow> st3
                             | Inr st' \<Rightarrow> st')
                  in (Some (''failed to connect to target server: failed to dial SSH: '' @ e), st4))
             | None \<Rightarrow>
                 (case executeDeploymentSteps env d
                         (getStringFromMap (job_Data job) ''github_repo_url'')
                         (getStringFromMap (job_Data job) ''github_pat'')
                         (getStringFromMap (job_Data job) ''github_branch'')
                         (getStringFromMap (job_Data job) ''env_file_path'') st1 of
                    (Some e, st2) \<Rightarrow>
                      (Some e,
                       (case service_UpdateDeploymentStatus
                               (w_updateStatus env DeploymentStatusFailed)
                               (w_clock env 0 DeploymentStatusFailed) d
                               DeploymentStatusFailed (Some (''Deployment failed: '' @ e)) st2 of
                          Inl e' \<Rightarrow> st2
                        | Inr st' \<Rightarrow> st'))
                  | (None, st2) \<Rightarrow>
                      (case service_UpdateDeploymentStatus
                              (w_updateStatus env DeploymentStatusCompleted)
                              (w_clock env 0 DeploymentStatusCompleted) d
                              DeploymentStatusCompleted None st2 of
                         Inl e \<Rightarrow> (Some (''failed to update deployment status: '' @ e), st2)
                       | Inr st3 \<Rightarrow> (None, st3)))))"

section \<open>Log stream (DeploymentHandler.streamDeploymentLogs)\<close>

text \<open>Go compares strings byte by byte; \<open>strLess a b\<close> is \<^verbatim>\<open>a < b\<close>.\<close>

fun strLess :: "string \<Rightarrow> string \<Rightarrow> bool" where
  "strLess [] [] = False"
| "strLess [] (y # ys) = True"
| "strLess (x # xs) [] = False"
| "strLess (x # xs) (y # ys) =
     ((of_char x :: nat) < of_char y \<or> (x = y \<and> strLess xs ys))"

text \<open>The zero value of \<^verbatim>\<open>uuid.UUID\<close>, printed.\<close>

definition nilUUID :: uuid where
  "nilUUID = ''00000000-0000-0000-0000-000000000000''"

datatype Event = Connected uuid | LogEvent DeploymentLog | Heartbeat

text \<open>
  The loop over the initial logs emits every row and raises the cursor; the loop of a
  poll emits a row only when its id is above the cursor, and then moves the cursor to
  it. Both return the events in emission order and the new cursor.
\<close>

fun emitInitial :: "DeploymentLog list \<Rightarrow> uuid \<Rightarrow> Event list \<times> uuid" where
  "emitInitial [] lastLogID = ([], lastLogID)"
| "emitInitial (l # logs) lastLogID =
     (let (evs, last') = emitInitial logs (if strLess lastLogID (log_ID l) then log_ID l
                                             else lastLogID)
      in (LogEvent l # evs, last'))"

fun emitNew :: "DeploymentLog list \<Rightarrow> uuid \<Rightarrow> Event list \<times> uuid" where
  "emitNew [] lastLogID = ([], lastLogID)"
| "emitNew (l # newLogs) lastLogID =
     (if strLess lastLogID (log_ID l)
      then (let (evs, last') = emitNew newLogs (log_ID l) in (LogEvent l # evs, last'))
      else emitNew newLogs lastLogID)"

text \<open>
  One tick of the poll loop against the store as it is at that tick, and the run of
  ticks until the observer disconnects. The store is read through \<open>qerr\<close> and \<open>st\<close>.
\<close>

definition pollTick :: "uuid \<Rightarrow> (error option \<times> Store) \<Rightarrow> uuid \<Rightarrow> Event list \<times> uuid" where
  "pollTick deploymentID db lastLogID =
     (case service_GetDeploymentLogs (fst db) (snd db) deploymentID 100 of
        Inl e \<Rightarrow> ([Heartbeat], lastLogID)
      | Inr newLogs \<Rightarrow>
          (let (evs, last') = emitNew newLogs lastLogID in (evs @ [Heartbeat], last')))"

fun pollLoop :: "uuid \<Rightarrow> (error option \<times> Store) list \<Rightarrow> uuid \<Rightarrow> Event list" where
  "pollLoop deploymentID [] lastLogID = []"
| "pollLoop deploymentID (db # dbs) lastLogID =
     (let (evs, last') = pollTick deploymentID db lastLogID
      in evs @ pollLoop deploymentID dbs last')"

definition streamDeploymentLogs ::
  "uuid \<Rightarrow> (error option \<times> Store) \<Rightarrow> (error option \<times> Store) list \<Rightarrow> Event list" where
  "streamDeploymentLogs deploymentID db0 ticks =
     (let (evs, lastLogID) =
            (case service_GetDeploymentLogs (fst db0) (snd db0) deploymentID 50 of
               Inl e \<Rightarrow> ([], nilUUID)
             | Inr logs \<Rightarrow> emitInitial logs nilUUID)
      in Connected deploymentID # evs @ pollLoop deploymentID ticks lastLogID)"

section \<open>Env-file normalization (Worker.processEnvironmentVariables)\<close>

text \<open>
  The code points for which \<^verbatim>\<open>unicode.IsSpace\<close> holds are tab, line feed, vertical
  tab, form feed, carriage return, space, U+0085, U+00A0, U+1680, U+2000 to U+200A,
  U+2028, U+2029, U+202F, U+205F and U+3000. A Go string is a sequence of bytes holding
  UTF-8 text; \<open>spaceSeqs\<close> lists the UTF-8 encodings of these code points, in that order.
\<close>

definition spaceSeqs :: "string list" where
  "spaceSeqs =
     [[CHR 0x09], [CHR 0x0A], [CHR 0x0B], [CHR 0x0C], [CHR 0x0D], [CHR 0x20],
      [CHR 0xC2, CHR 0x85], [CHR 0xC2, CHR 0xA0],
      [CHR 0xE1, CHR 0x9A, CHR 0x80],
      [CHR 0xE2, CHR 0x80, CHR 0x80], [CHR 0xE2, CHR 0x80, CHR 0x81],
      [CHR 0xE2, CHR 0x80, CHR 0x82], [CHR 0xE2, CHR 0x80, CHR 0x83],
      [CHR 0xE2, CHR 0x80, CHR 0x84], [CHR 0xE2, CHR 0x80, CHR 0x85],
      [CHR 0xE2, CHR 0x80, CHR 0x86], [CHR 0xE2, CHR 0x80, CHR 0x87],
      [CHR 0xE2, CHR 0x80, CHR 0x88], [CHR 0xE2, CHR 0x80, CHR 0x89],
      [CHR 0xE2, CHR 0x80, CHR 0x8A],
      [CHR 0xE2, CHR 0x80, CHR 0xA8], [CHR 0xE2, CHR 0x80, CHR 0xA9],
      [CHR 0xE2, CHR 0x80, CHR 0xAF],
      [CHR 0xE2, CHR 0x81, CHR 0x9F],
      [CHR 0xE3, CHR 0x80, CHR 0x80]]"

text \<open>
  \<^verbatim>\<open>strings.TrimSpace\<close> removes white space at both ends, rune by rune: a string
  begins with a white-space rune when one of the encodings is a prefix of its bytes, and
  ends with one when an encoding is a suffix. \<open>leading es s\<close> is the sequence of \<open>es\<close>
  that \<open>s\<close> begins with, if any, \<open>leadingLength\<close> its length (0 when there is none),
  and \<open>stripLeading\<close> removes such sequences as long as there is one.
\<close>

definition leading :: "'a list list \<Rightarrow> 'a list \<Rightarrow> 'a list option" where
  "leading es s = find (\<lambda>e. e \<noteq> [] \<and> take (length e) s = e) es"

definition leadingLength :: "'a list list \<Rightarrow> 'a list \<Rightarrow> nat" where
  "leadingLength es s = (case leading es s of None \<Rightarrow> 0 | Some e \<Rightarrow> length e)"

function stripLeading :: "'a list list \<Rightarrow> 'a list \<Rightarrow> 'a list" where
  "stripLeading es s =
     (if leadingLength es s = 0 then s
      else stripLeading es (drop (leadingLength es s) s))"
  by pat_completeness auto
termination
proof (relation "measure (\<lambda>(es, s). length s)")
  show "wf (measure (\<lambda>(es, s). length s))" by simp
next
  fix es :: "'a list list" and s :: "'a list"
  assume n: "leadingLength es s \<noteq> 0"
  then obtain e where l: "leading es s = Some e"
    by (cases "leading es s") (auto simp: leadingLength_def)
  then have e: "e \<noteq> []" and t: "take (length e) s = e"
    by (auto simp: leading_def find_Some_iff)
  have "length (take (length e) s) \<le> length s" by simp
  with t have "length e \<le> length s" by simp
  moreover from e have "0 < length e" by simp
  ultimately have "length s - length e < length s" by arith
  with l show "((es, drop (leadingLength es s) s), (es, s)) \<in> measure (\<lambda>(es, s). length s)"
    by (simp add: leadingLength_def)
qed

declare stripLeading.simps [simp del]

definition TrimSpace :: "string \<Rightarrow> string" where
  "TrimSpace s = rev (stripLeading (map rev spaceSeqs) (rev (stripLeading spaceSeqs s)))"

text \<open>\<^verbatim>\<open>strings.Split(s, sep)\<close> for a separator of one character.\<close>

fun Split :: "string \<Rightarrow> char \<Rightarrow> string list" where
  "Split [] sep = [[]]"
| "Split (c # cs) sep =
     (if c = sep then [] # Split cs sep
      else (case Split cs sep of [] \<Rightarrow> [[c]] | l # ls \<Rightarrow> (c # l) # ls))"

text \<open>\<^verbatim>\<open>strings.Join(elems, sep)\<close>.\<close>

fun Join :: "string list \<Rightarrow> string \<Rightarrow> string" where
  "Join [] sep = []"
| "Join [x] sep = x"
| "Join (x # y # ys) sep = x @ sep @ Join (y # ys) sep"

text \<open>\<^verbatim>\<open>strings.SplitN(s, sep, 2)\<close> for a separator of one character.\<close>

definition SplitN2 :: "string \<Rightarrow> char \<Rightarrow> string list" where
  "SplitN2 s sep =
     (case dropWhile (\<lambda>c. c \<noteq> sep) s of
        [] \<Rightarrow> [s]
      | _ # rest \<Rightarrow> [takeWhile (\<lambda>c. c \<noteq> sep) s, rest])"

definition newline :: char where
  "newline = CHR 0x0A"

text \<open>The cutset of the quote removal: the double and the single quote.\<close>

definition quotes :: string where
  "quotes = [CHR 0x22, CHR 0x27]"

text \<open>The body of the loop: the line to keep, if any.\<close>

definition processLine :: "string \<Rightarrow> string option" where
  "processLine l =
     (let line = TrimSpace l in
      if line = [] then None
      else if take 1 line = ''#'' then None
      else if CHR ''='' \<notin> set line then None
      else (case SplitN2 line CHR ''='' of
              [k, v] \<Rightarrow> Some (TrimSpace k @ ''='' @ Trim (TrimSpace v) quotes)
            | _ \<Rightarrow> None))"

definition processEnvironmentVariables :: "string \<Rightarrow> string" where
  "processEnvironmentVariables envVars =
     Join (List.map_filter processLine (Split envVars newline)) [newline]"

text \<open>The value of a line \<^verbatim>\<open>KEY=VALUE\<close>: what follows the first \<^verbatim>\<open>=\<close>.\<close>

definition lineValue :: "string \<Rightarrow> string" where
  "lineValue l = drop 1 (dropWhile (\<lambda>c. c \<noteq> CHR ''='') l)"

section \<open>Notions used to state the properties\<close>

text \<open>The step rows a call has appended to the table.\<close>

definition stepsWritten :: "Store \<Rightarrow> Store \<Rightarrow> DeploymentStep list" where
  "stepsWritten st st' = drop (length (deployment_steps st)) (deployment_steps st')"

text \<open>The rows of the step table of \<^verbatim>\<open>createInitialSteps\<close>, in its order.\<close>

definition initialSteps :: "CreateEnv \<Rightarrow> uuid \<Rightarrow> DeploymentStep list" where
  "initialSteps env d = map (\<lambda>(name, ord). newStep env d name ord) stepTable"

text \<open>The envelope a successful creation pushes onto the queue.\<close>

definition newJob ::
  "CreateEnv \<Rightarrow> 'a CreateDeploymentRequest_scheme \<Rightarrow> int \<Rightarrow> (string \<times> JobValue) list \<Rightarrow> Job" where
  "newJob env req port extra =
     \<lparr>job_ID = env_jobID env,
      job_Data = deploymentData req port
                   (generateContainerName (env_newID env) (req_ContainerName req)
                      (req_ProjectName req) (req_DeploymentName req)) @ extra,
      job_CreatedAt = env_now env, job_DeploymentID = env_newID env\<rparr>"

text \<open>
  The store after a creation call on the empty store followed by the worker's run on
  the job that the call has queued.
\<close>

definition deployAndRun ::
  "CreateEnv \<Rightarrow> WorkerEnv \<Rightarrow> CreateDeploymentRequest \<Rightarrow> uuid \<Rightarrow> Store" where
  "deployAndRun cenv wenv req userID =
     (let st = snd (CreateDeploymentWithEnvFile cenv req [] userID emptyStore)
      in case queue st of
           [] \<Rightarrow> st
         | job # jobs \<Rightarrow> snd (processDeploymentJob wenv job st))"

text \<open>A deployment row without its two secrets, and the table as the reads see it.\<close>

definition redact :: "Deployment \<Rightarrow> Deployment" where
  "redact d = d\<lparr>dep_SSHPasswordEncrypted := None, dep_GitHubPATEncrypted := None\<rparr>"

definition readView :: "Store \<Rightarrow> Deployment list" where
  "readView st = map redact (deployments st)"

text \<open>
  The step rows of one deployment, and what the schema and \<^verbatim>\<open>createInitialSteps\<close>
  establish for them: the primary key \<^verbatim>\<open>id\<close> is unique in the table, and the
  steps of one deployment have different orders.
\<close>

definition stepsOf :: "uuid \<Rightarrow> Store \<Rightarrow> DeploymentStep list" where
  "stepsOf d st = filter (\<lambda>s. step_DeploymentID s = d) (deployment_steps st)"

definition stepsWellFormed :: "uuid \<Rightarrow> Store \<Rightarrow> bool" where
  "stepsWellFormed d st =
     (distinct (map step_ID (deployment_steps st)) \<and> distinct (map step_StepOrder (stepsOf d st)))"

text \<open>A step row as \<^verbatim>\<open>markRemainingStepsAsFailed\<close> rewrites it.\<close>

definition abandon :: "WorkerEnv \<Rightarrow> int \<Rightarrow> DeploymentStep \<Rightarrow> DeploymentStep" where
  "abandon env failedStepOrder r =
     stampCompleted (w_clock env (step_StepOrder r) DeploymentStatusFailed)
       (r\<lparr>step_Status := DeploymentStatusFailed,
          step_ErrorMessage := Some (abandonedMsg failedStepOrder)\<rparr>)"

text \<open>A string that neither begins nor ends with a white-space rune.\<close>

definition noSpaceAtEnds :: "string \<Rightarrow> bool" where
  "noSpaceAtEnds s =
     (leading spaceSeqs s = None \<and> leading (map rev spaceSeqs) (rev s) = None)"

text \<open>\<^verbatim>\<open>strings.Trim\<close> removes the characters of the cutset at the two ends.\<close>

definition trimBoth :: "('a \<Rightarrow> bool) \<Rightarrow> 'a list \<Rightarrow> 'a list" where
  "trimBoth p s = rev (dropWhile p (rev (dropWhile p s)))"

section \<open>Concrete inputs\<close>

text \<open>
  An env file with comments, a blank line and quoted values, one whose value keeps a
  blank inside its quotes, and one whose value keeps a no-break space (U+00A0) there.
\<close>

definition envFile :: string where
  "envFile =
     ''# hdr'' @ [newline] @ ''A=1'' @ [newline, newline] @ ''B='' @ [CHR 0x22] @ ''two''
       @ [CHR 0x22, newline] @ ''C='' @ [CHR 0x27] @ ''three'' @ [CHR 0x27, newline]
       @ ''# trailing''"

definition envQuotedBlank :: string where
  "envQuotedBlank = ''K='' @ [CHR 0x22] @ '' a'' @ [CHR 0x22]"

definition envQuotedNBSP :: string where
  "envQuotedNBSP = ''K='' @ [CHR 0x22, CHR 0xC2, CHR 0xA0] @ ''a'' @ [CHR 0x22]"

definition example_id :: uuid where
  "example_id = ''67cfd2e8-0917-45b7-8747-482730c62ef1''"

definition example_user :: uuid where
  "example_user = ''0a1b2c3d-0000-4000-8000-00000000000a''"

definition example_stepID :: "string \<Rightarrow> uuid" where
  "example_stepID name =
     (if name = ''validate_credentials'' then ''5e000000-0000-4000-8000-000000000001''
      else if name = ''git_clone'' then ''5e000000-0000-4000-8000-000000000002''
      else if name = ''docker_build'' then ''5e000000-0000-4000-8000-000000000003''
      else if name = ''docker_run'' then ''5e000000-0000-4000-8000-000000000004''
      else ''5e000000-0000-4000-8000-000000000005'')"

definition example_env :: CreateEnv where
  "example_env =
     \<lparr>env_newID = example_id, env_now = 1000, env_stepID = example_stepID,
      env_jobID = ''70b00000-0000-4000-8000-000000000001'',
      env_insertDeployment = None, env_insertStep = (\<lambda>name. None), env_enqueue = None\<rparr>"

text \<open>The same, with the database refusing the row of \<^verbatim>\<open>git_clone\<close>.\<close>

definition stepFailEnv :: CreateEnv where
  "stepFailEnv =
     example_env\<lparr>env_insertStep :=
                   (\<lambda>name. if name = ''git_clone'' then Some ''connection reset'' else None)\<rparr>"

text \<open>
  A run of the worker in which the database and every remote command succeed.
  \<^verbatim>\<open>url.Parse\<close> is given on the repository URL of the example request, the only
  string it is applied to in these runs.
\<close>

definition okWorker :: WorkerEnv where
  "okWorker =
     \<lparr>w_clock = (\<lambda>ord status. 2000 + 100 * ord
                                  + (if status = DeploymentStatusRunning then 0 else 50)),
      w_getSteps = None,
      w_updateStep = (\<lambda>ord status. None), w_updateStatus = (\<lambda>status. None),
      w_ssh = None, w_cleanupSession = None, w_cloneSession = None,
      w_urlParse = (\<lambda>raw. if raw = ''https://github.com/x/y.git''
                           then Some (''github.com'', ''/x/y.git'') else None),
      w_combinedOutput = (\<lambda>cmd. (None, [])),
      w_build = Succeeds, w_copyEnv = None,
      w_runEnvFile = Succeeds, w_run = Succeeds, w_health = Succeeds\<rparr>"

definition example_job :: Job where
  "example_job =
     \<lparr>job_ID = ''70b00000-0000-4000-8000-000000000001'',
      job_Data = deploymentData example_request 3000 ''deployknot-p-d'',
      job_CreatedAt = 1000, job_DeploymentID = example_id\<rparr>"

text \<open>
  A remote shell as bash behaves on a command line with an unquoted parenthesis: it
  runs nothing, reports a syntax error that quotes the command line, and exits with
  status 2, which \<^verbatim>\<open>session.CombinedOutput\<close> returns as the error
  \<^verbatim>\<open>Process exited with status 2\<close>. Any other command line succeeds with no output.
\<close>

definition syntaxErrorShell :: "string \<Rightarrow> error option \<times> string" where
  "syntaxErrorShell cmd =
     (if CHR ''('' \<in> set cmd
      then (Some ''Process exited with status 2'',
            ''bash: -c: line 1: syntax error near unexpected token '' @ [CHR 0x60] @ ''(''
              @ [CHR 0x27, newline]
              @ ''bash: -c: line 1: '' @ [CHR 0x60] @ cmd @ [CHR 0x27, newline])
      else (None, []))"

text \<open>The run of \<open>okWorker\<close> against that shell.\<close>

definition bashWorker :: WorkerEnv where
  "bashWorker = okWorker\<lparr>w_combinedOutput := syntaxErrorShell\<rparr>"

text \<open>
  The example request for the branch \<^verbatim>\<open>feat(x)\<close>, and the same request with another
  SSH password and another GitHub token.
\<close>

definition branchRequest :: CreateDeploymentRequest where
  "branchRequest = example_request\<lparr>req_GitHubBranch := ''feat(x)''\<rparr>"

definition branchRequestOtherSecrets :: CreateDeploymentRequest where
  "branchRequestOtherSecrets =
     branchRequest\<lparr>req_SSHPassword := ''pw2'', req_GitHubPAT := ''ghp_other''\<rparr>"

definition stepRow :: "string \<Rightarrow> int \<Rightarrow> DeploymentStatus \<Rightarrow> string option \<Rightarrow> DeploymentStep" where
  "stepRow name ord status msg =
     (newStep example_env example_id name ord)
       \<lparr>step_Status := status, step_ErrorMessage := msg\<rparr>"

definition mixedStore :: Store where
  "mixedStore =
     emptyStore\<lparr>deployment_steps :=
       [stepRow ''validate_credentials'' 1 DeploymentStatusRunning None,
        stepRow ''git_clone'' 2 DeploymentStatusPending None,
        stepRow ''docker_build'' 3 DeploymentStatusFailed (Some ''Docker build failed''),
        stepRow ''docker_run'' 4 DeploymentStatusPending None,
        stepRow ''health_check'' 5 DeploymentStatusCompleted None]\<rparr>"

definition logRow :: "uuid \<Rightarrow> time \<Rightarrow> string \<Rightarrow> DeploymentLog" where
  "logRow i t msg =
     \<lparr>log_ID = i, log_DeploymentID = example_id, log_CreatedAt = t, log_LogLevel = ''info'',
      log_Message = msg, log_TaskName = None, log_StepOrder = None\<rparr>"

definition firstLog :: DeploymentLog where
  "firstLog = logRow ''ffffffff-ffff-4fff-8fff-ffffffffffff'' 1 ''Starting deployment process''"

definition secondLog :: DeploymentLog where
  "secondLog = logRow ''00000000-0000-4000-8000-000000000001'' 2 ''SSH connection established''"

definition storeAtAttach :: Store where
  "storeAtAttach = emptyStore\<lparr>deployment_logs := [firstLog]\<rparr>"

definition storeLater :: Store where
  "storeLater = emptyStore\<lparr>deployment_logs := [firstLog, secondLog]\<rparr>"

section \<open>Properties of the port conversion\<close>

lemma isDigit_digitChar: "d < 10 \<Longrightarrow> isDigit (digitChar d)"
  by (simp add: isDigit_def digitChar_def)

lemma digitVal_digitChar: "d < 10 \<Longrightarrow> digitVal (digitChar d) = int d"
  by (simp add: digitVal_def digitChar_def)

lemma digitsVal_append:
  "digitsVal n (xs @ ys) = (case digitsVal n xs of None \<Rightarrow> None | Some m \<Rightarrow> digitsVal m ys)"
  by (induction xs arbitrary: n) auto

lemma digitsVal_decimal: "digitsVal 0 (decimal n) = Some (int n)"
proof (induction n rule: decimal.induct)
  case (1 n)
  show ?case
  proof (cases "n < 10")
    case True
    then show ?thesis
      by (subst decimal.simps) (simp add: isDigit_digitChar digitVal_digitChar)
  next
    case False
    with 1 have ih: "digitsVal 0 (decimal (n div 10)) = Some (int (n div 10))"
      by simp
    have d: "n mod 10 < 10" by simp
    have "digitsVal 0 (decimal n) = digitsVal (int (n div 10)) [digitChar (n mod 10)]"
      using False by (subst decimal.simps) (simp add: digitsVal_append ih)
    also have "\<dots> = Some (int (n div 10) * 10 + int (n mod 10))"
      using d by (simp add: isDigit_digitChar digitVal_digitChar)
    also have "int (n div 10) * 10 + int (n mod 10) = int n"
      by (simp add: zdiv_int zmod_int)
    finally show ?thesis .
  qed
qed

lemma decimal_nonempty: "decimal n \<noteq> []"
  by (subst decimal.simps) simp

lemma hd_decimal_digit: "isDigit (hd (decimal n))"
proof (induction n rule: decimal.induct)
  case (1 n)
  show ?case
  proof (cases "n < 10")
    case True
    then show ?thesis by (subst decimal.simps) (simp add: isDigit_digitChar)
  next
    case False
    with 1 have "isDigit (hd (decimal (n div 10)))" by simp
    then show ?thesis
      using False decimal_nonempty [of "n div 10"]
      by (subst decimal.simps) simp
  qed
qed

lemma decimal_not_sign: "\<exists>c cs. decimal n = c # cs \<and> c \<noteq> CHR ''-'' \<and> c \<noteq> CHR ''+''"
proof -
  obtain c cs where e: "decimal n = c # cs"
    using decimal_nonempty [of n] by (cases "decimal n") auto
  have "isDigit c" using hd_decimal_digit [of n] e by simp
  then have "c \<noteq> CHR ''-'' \<and> c \<noteq> CHR ''+''"
    by (auto simp: isDigit_def)
  with e show ?thesis by blast
qed

lemma Atoi_Itoa:
  "Atoi (Itoa i) = (if i < minInt \<or> maxInt < i then None else Some i)"
proof (cases "i < 0")
  case True
  then have "Atoi (Itoa i) = (if - int (nat (- i)) < minInt \<or> maxInt < - int (nat (- i)) then None
                              else Some (- int (nat (- i))))"
    by (simp add: Atoi_def Itoa_def decimal_nonempty digitsVal_decimal Let_def)
  with True show ?thesis by simp
next
  case False
  obtain c cs where e: "decimal (nat i) = c # cs" "c \<noteq> CHR ''-''" "c \<noteq> CHR ''+''"
    using decimal_not_sign by blast
  have "digitsVal 0 (c # cs) = Some (int (nat i))"
    using digitsVal_decimal [of "nat i"] e by simp
  then have "Atoi (c # cs) = (if int (nat i) < minInt \<or> maxInt < int (nat i) then None
                               else Some (int (nat i)))"
    using e by (simp add: Atoi_def Let_def del: digitsVal.simps)
  with False e show ?thesis by (simp add: Itoa_def)
qed

text \<open>
  C9. Port validation rejects the ports 0 and 65536 and accepts 1 and 65535; for every
  integer written as a decimal numeral the conversion succeeds, returning that
  integer, exactly when it lies in 1..65535; and whatever the text of the port field,
  a returned port lies in 1..65535.
\<close>

theorem GetPortAsInt_accepts_iff_in_range:
  "GetPortAsInt (r\<lparr>req_Port := ''0''\<rparr>) = Inl ''port must be between 1 and 65535''
   \<and> GetPortAsInt (r\<lparr>req_Port := ''65536''\<rparr>) = Inl ''port must be between 1 and 65535''
   \<and> GetPortAsInt (r\<lparr>req_Port := ''1''\<rparr>) = Inr 1
   \<and> GetPortAsInt (r\<lparr>req_Port := ''65535''\<rparr>) = Inr 65535
   \<and> (\<forall>n. (GetPortAsInt (r\<lparr>req_Port := Itoa n\<rparr>) = Inr n) = (1 \<le> n \<and> n \<le> 65535))
   \<and> (\<forall>n. (\<exists>p. GetPortAsInt (r\<lparr>req_Port := Itoa n\<rparr>) = Inr p) = (1 \<le> n \<and> n \<le> 65535))
   \<and> (\<forall>s p. GetPortAsInt (r\<lparr>req_Port := s\<rparr>) = Inr p \<longrightarrow> 1 \<le> p \<and> p \<le> 65535)"
proof -
  have itoa_ne: "Itoa n \<noteq> []" for n
    by (simp add: Itoa_def decimal_nonempty)
  have gen: "GetPortAsInt (r\<lparr>req_Port := Itoa n\<rparr>) =
               (if 1 \<le> n \<and> n \<le> 65535 then Inr n
                else if n < minInt \<or> maxInt < n then Inl (''invalid port number: '' @ Itoa n)
                else Inl ''port must be between 1 and 65535'')" for n
    by (simp add: GetPortAsInt_def itoa_ne Atoi_Itoa minInt_def maxInt_def)
  have c0: "GetPortAsInt (r\<lparr>req_Port := ''0''\<rparr>) = Inl ''port must be between 1 and 65535''"
    by (simp add: GetPortAsInt_def Atoi_def isDigit_def digitVal_def minInt_def maxInt_def)
  have c1: "GetPortAsInt (r\<lparr>req_Port := ''65536''\<rparr>) = Inl ''port must be between 1 and 65535''"
    by (simp add: GetPortAsInt_def Atoi_def isDigit_def digitVal_def minInt_def maxInt_def)
  have c2: "GetPortAsInt (r\<lparr>req_Port := ''1''\<rparr>) = Inr 1"
    by (simp add: GetPortAsInt_def Atoi_def isDigit_def digitVal_def minInt_def maxInt_def)
  have c3: "GetPortAsInt (r\<lparr>req_Port := ''65535''\<rparr>) = Inr 65535"
    by (simp add: GetPortAsInt_def Atoi_def isDigit_def digitVal_def minInt_def maxInt_def)
  have c4: "\<forall>n. (GetPortAsInt (r\<lparr>req_Port := Itoa n\<rparr>) = Inr n) = (1 \<le> n \<and> n \<le> 65535)"
    by (simp add: gen)
  have c5: "\<forall>n. (\<exists>p. GetPortAsInt (r\<lparr>req_Port := Itoa n\<rparr>) = Inr p) = (1 \<le> n \<and> n \<le> 65535)"
    by (simp add: gen)
  have c6: "\<forall>s p. GetPortAsInt (r\<lparr>req_Port := s\<rparr>) = Inr p \<longrightarrow> 1 \<le> p \<and> p \<le> 65535"
    by (auto simp: GetPortAsInt_def split: if_splits option.splits)
  from c0 c1 c2 c3 c4 c5 c6 show ?thesis by blast
qed

theorem GetPortAsInt_accepts_iff_in_range_witness:
  "GetPortAsInt (example_request\<lparr>req_Port := ''8080''\<rparr>) = Inr 8080
   \<and> (1::int) \<le> 8080 \<and> (8080::int) \<le> 65535
   \<and> GetPortAsInt (example_request\<lparr>req_Port := Itoa 70000\<rparr>) \<noteq> Inr 70000"
proof -
  have h: "GetPortAsInt (example_request\<lparr>req_Port := ''8080''\<rparr>) = Inr 8080"
    by (simp add: GetPortAsInt_def Atoi_def isDigit_def digitVal_def minInt_def maxInt_def)
  note t = GetPortAsInt_accepts_iff_in_range [of example_request]
  from t have "GetPortAsInt (example_request\<lparr>req_Port := ''8080''\<rparr>) = Inr 8080
                 \<longrightarrow> (1::int) \<le> 8080 \<and> (8080::int) \<le> 65535"
    by blast
  moreover from t have "(GetPortAsInt (example_request\<lparr>req_Port := Itoa 70000\<rparr>) = Inr 70000)
                          = ((1::int) \<le> 70000 \<and> (70000::int) \<le> 65535)"
    by blast
  ultimately show ?thesis using h by simp
qed

section \<open>Properties of the container name\<close>

text \<open>
  C6. The precedence of the canonical container name holds: a supplied container
  name is used verbatim, and with no names the result is \<^verbatim>\<open>deployknot-{id}\<close>. The
  sanitizer replaces each character outside \<^verbatim>\<open>[a-z0-9-]\<close> by a hyphen and trims
  hyphens at both ends, but does not collapse a run of hyphens: for the project
  \<^verbatim>\<open>P! Q\<close> and the deployment \<^verbatim>\<open>Dep 1\<close> the name is
  \<^verbatim>\<open>deployknot-p--q-dep-1\<close>, not \<^verbatim>\<open>deployknot-p-q-dep-1\<close>.
\<close>

theorem generateContainerName_keeps_hyphen_runs:
  "generateContainerName ''67cfd2e8-0917-45b7-8747-482730c62ef1''
       (Some ''svc-a'') (Some ''P! Q'') (Some ''Dep 1'') = ''svc-a''
   \<and> generateContainerName ''67cfd2e8-0917-45b7-8747-482730c62ef1''
       None (Some ''P! Q'') (Some ''Dep 1'') = ''deployknot-p--q-dep-1''
   \<and> generateContainerName ''67cfd2e8-0917-45b7-8747-482730c62ef1''
       None (Some ''P! Q'') (Some ''Dep 1'') \<noteq> ''deployknot-p-q-dep-1''
   \<and> sanitizeContainerName ''P! Q'' = ''p--q''
   \<and> generateContainerName ''67cfd2e8-0917-45b7-8747-482730c62ef1'' None None None
       = ''deployknot-67cfd2e8-0917-45b7-8747-482730c62ef1''"
  by code_simp

section \<open>Properties of the GET handler\<close>

lemma service_GetDeployment_error_prefixed:
  "service_GetDeployment qerr st i = Inl e \<Longrightarrow> \<exists>e'. e = ''failed to get deployment: '' @ e'"
  by (auto simp: service_GetDeployment_def split: sum.splits)

lemma handler_GetDeployment_never_404:
  "fst (handler_GetDeployment qerr st idStr) \<noteq> 404"
  by (auto simp: handler_GetDeployment_def split: option.splits sum.splits
           dest!: service_GetDeployment_error_prefixed)

text \<open>
  C5. A GET with a well-formed id that names no deployment is answered with 500: the
  repository reports \<^verbatim>\<open>deployment not found\<close>, the service wraps the message,
  and the handler compares the wrapped message with the bare one. No request at all
  is answered with 404.
\<close>

theorem handler_GetDeployment_unknown_id_is_500:
  "uuid_Parse ''67cfd2e8-0917-45b7-8747-482730c62ef1''
     = Some ''67cfd2e8-0917-45b7-8747-482730c62ef1''
   \<and> repo_GetDeployment None emptyStore ''67cfd2e8-0917-45b7-8747-482730c62ef1''
     = Inl ''deployment not found''
   \<and> handler_GetDeployment None emptyStore ''67cfd2e8-0917-45b7-8747-482730c62ef1''
     = (500, Inl ''Failed to get deployment'')
   \<and> (\<forall>qerr st idStr. fst (handler_GetDeployment qerr st idStr) \<noteq> 404)"
proof -
  have "uuid_Parse ''67cfd2e8-0917-45b7-8747-482730c62ef1''
          = Some ''67cfd2e8-0917-45b7-8747-482730c62ef1''"
    by code_simp
  moreover have "repo_GetDeployment None emptyStore ''67cfd2e8-0917-45b7-8747-482730c62ef1''
          = Inl ''deployment not found''"
    by code_simp
  moreover have "handler_GetDeployment None emptyStore ''67cfd2e8-0917-45b7-8747-482730c62ef1''
          = (500, Inl ''Failed to get deployment'')"
    by code_simp
  ultimately show ?thesis
    using handler_GetDeployment_never_404 by blast
qed

section \<open>Reads and secrets\<close>

lemma toResponse_redact: "toResponse (redact d) = toResponse d"
  by (simp add: toResponse_def redact_def)

lemma redact_fields:
  "dep_ID (redact d) = dep_ID d" "dep_UserID (redact d) = dep_UserID d"
  "dep_CreatedAt (redact d) = dep_CreatedAt d"
  "redact (d\<lparr>dep_UserID := u\<rparr>) = (redact d)\<lparr>dep_UserID := u\<rparr>"
  by (simp_all add: redact_def)

lemma toResponse_UserID: "toResponse (d\<lparr>dep_UserID := u\<rparr>) = toResponse d"
  by (simp add: toResponse_def)

lemma find_map_redact:
  "find (\<lambda>d. dep_ID d = i) (map redact xs) = map_option redact (find (\<lambda>d. dep_ID d = i) xs)"
  by (induction xs) (simp_all add: redact_fields)

lemma insort_key_map_redact:
  "insort_key (\<lambda>d. - dep_CreatedAt d) (redact x) (map redact xs)
     = map redact (insort_key (\<lambda>d. - dep_CreatedAt d) x xs)"
  by (induction xs) (simp_all add: redact_fields)

lemma sort_key_map_redact:
  "sort_key (\<lambda>d. - dep_CreatedAt d) (map redact xs)
     = map redact (sort_key (\<lambda>d. - dep_CreatedAt d) xs)"
  by (induction xs) (simp_all add: insort_key_map_redact)

lemma filter_map_redact:
  "filter (\<lambda>d. dep_UserID d = u) (map redact xs) = map redact (filter (\<lambda>d. dep_UserID d = u) xs)"
  by (induction xs) (simp_all add: redact_fields)

lemma service_GetDeployment_readView:
  "service_GetDeployment qerr st i =
     (case qerr of
        Some e \<Rightarrow> Inl (''failed to get deployment: '' @ ''failed to get deployment: '' @ e)
      | None \<Rightarrow>
          (case find (\<lambda>d. dep_ID d = i) (readView st) of
             None \<Rightarrow> Inl (''failed to get deployment: '' @ ''deployment not found'')
           | Some d \<Rightarrow> Inr (toResponse d)))"
  by (simp add: service_GetDeployment_def repo_GetDeployment_def readView_def find_map_redact
        toResponse_redact toResponse_UserID split: option.splits)

lemma GetDeploymentsByUser_readView:
  "GetDeploymentsByUser qerr st u limit offset =
     (case qerr of
        Some e \<Rightarrow> Inl (''failed to get deployments by user: '' @ ''failed to get deployments by user: '' @ e)
      | None \<Rightarrow>
          Inr (map toResponse (take limit (drop offset
                 (sort_key (\<lambda>d. - dep_CreatedAt d)
                    (filter (\<lambda>d. dep_UserID d = Some u) (readView st)))))))"
proof -
  have "map toResponse (take limit (drop offset (sort_key (\<lambda>d. - dep_CreatedAt d)
          (filter (\<lambda>d. dep_UserID d = Some u) (map redact xs)))))
        = map toResponse (take limit (drop offset (sort_key (\<lambda>d. - dep_CreatedAt d)
          (filter (\<lambda>d. dep_UserID d = Some u) xs))))" for xs
  proof -
    have "take limit (drop offset (sort_key (\<lambda>d. - dep_CreatedAt d)
            (filter (\<lambda>d. dep_UserID d = Some u) (map redact xs))))
          = map redact (take limit (drop offset (sort_key (\<lambda>d. - dep_CreatedAt d)
            (filter (\<lambda>d. dep_UserID d = Some u) xs))))"
      by (simp only: filter_map_redact sort_key_map_redact take_map drop_map)
    then show ?thesis by (simp add: toResponse_redact o_def)
  qed
  then show ?thesis
    by (simp add: GetDeploymentsByUser_def repo_GetDeploymentsByUserID_def readView_def
          split: option.splits)
qed

lemma GetPortAsInt_secrets:
  "GetPortAsInt (req\<lparr>req_SSHPassword := pw, req_GitHubPAT := pat\<rparr>) = GetPortAsInt req"
  by (simp add: GetPortAsInt_def split: option.splits)

lemma createSteps_deployments:
  "deployments (snd (createSteps env d tbl st)) = deployments st"
  by (induction env d tbl st rule: createSteps.induct)
     (simp_all add: repo_CreateDeploymentStep_def split: option.splits)

lemma createWith_readView:
  "readView (snd (createWith env (req\<lparr>req_SSHPassword := pw, req_GitHubPAT := pat\<rparr>) u extra st))
     = readView (snd (createWith env req u extra st))"
  by (simp add: createWith_def GetPortAsInt_secrets readView_def repo_CreateDeployment_def
        createInitialSteps_def createSteps_deployments EnqueueDeploymentJob_def Let_def
        newDeployment_def redact_def
        split: sum.splits option.splits)

lemma createWith_response:
  "fst (createWith env (req\<lparr>req_SSHPassword := pw, req_GitHubPAT := pat\<rparr>) u extra st)
     = fst (createWith env req u extra st)"
  by (simp add: createWith_def GetPortAsInt_secrets repo_CreateDeployment_def
        Let_def creationResponse_def
        split: sum.splits option.splits)

lemma service_GetDeployment_cong:
  "readView st1 = readView st2 \<Longrightarrow> service_GetDeployment qerr st1 i = service_GetDeployment qerr st2 i"
  by (simp add: service_GetDeployment_readView split: option.splits)

lemma GetDeploymentsByUser_cong:
  "readView st1 = readView st2 \<Longrightarrow>
   GetDeploymentsByUser qerr st1 v limit offset = GetDeploymentsByUser qerr st2 v limit offset"
  by (simp add: GetDeploymentsByUser_readView split: option.splits)

text \<open>
  Before the worker runs: two creation requests that differ only in the SSH password
  and the GitHub token get the same creation response, and on the store that the
  creation call returns every \<^verbatim>\<open>GetDeployment\<close> and every list-by-user read gives
  the same result. This holds for both creation entry points, from any store, whatever
  the writes and the query do.
\<close>

lemma reads_after_creation_do_not_depend_on_secrets:
  "fst (CreateDeploymentWithEnvFile env (req\<lparr>req_SSHPassword := pw, req_GitHubPAT := pat\<rparr>) path u st)
     = fst (CreateDeploymentWithEnvFile env req path u st)
   \<and> service_GetDeployment qerr
        (snd (CreateDeploymentWithEnvFile env (req\<lparr>req_SSHPassword := pw, req_GitHubPAT := pat\<rparr>) path u st)) i
     = service_GetDeployment qerr (snd (CreateDeploymentWithEnvFile env req path u st)) i
   \<and> GetDeploymentsByUser qerr
        (snd (CreateDeploymentWithEnvFile env (req\<lparr>req_SSHPassword := pw, req_GitHubPAT := pat\<rparr>) path u st))
        v limit offset
     = GetDeploymentsByUser qerr (snd (CreateDeploymentWithEnvFile env req path u st)) v limit offset
   \<and> fst (CreateDeployment env (req\<lparr>req_SSHPassword := pw, req_GitHubPAT := pat\<rparr>) st)
     = fst (CreateDeployment env req st)
   \<and> service_GetDeployment qerr
        (snd (CreateDeployment env (req\<lparr>req_SSHPassword := pw, req_GitHubPAT := pat\<rparr>) st)) i
     = service_GetDeployment qerr (snd (CreateDeployment env req st)) i
   \<and> GetDeploymentsByUser qerr
        (snd (CreateDeployment env (req\<lparr>req_SSHPassword := pw, req_GitHubPAT := pat\<rparr>) st))
        v limit offset
     = GetDeploymentsByUser qerr (snd (CreateDeployment env req st)) v limit offset"
  by (simp add: CreateDeploymentWithEnvFile_def CreateDeployment_def createWith_response
        service_GetDeployment_cong [OF createWith_readView]
        GetDeploymentsByUser_cong [OF createWith_readView])

lemma reads_after_creation_example:
  "service_GetDeployment None
     (snd (CreateDeploymentWithEnvFile example_env
             (example_request\<lparr>req_SSHPassword := ''other'', req_GitHubPAT := ''ghp_other''\<rparr>)
             [] example_user emptyStore)) example_id
   = service_GetDeployment None
       (snd (CreateDeploymentWithEnvFile example_env example_request [] example_user emptyStore))
       example_id
   \<and> service_GetDeployment None
       (snd (CreateDeploymentWithEnvFile example_env example_request [] example_user emptyStore))
       example_id
     = Inr (creationResponse example_request example_id 1000 3000 ''deployknot-p-d'')
   \<and> GetDeploymentsByUser None
       (snd (CreateDeploymentWithEnvFile example_env
               (example_request\<lparr>req_SSHPassword := ''other'', req_GitHubPAT := ''ghp_other''\<rparr>)
               [] example_user emptyStore)) example_user 50 0
     = Inr [creationResponse example_request example_id 1000 3000 ''deployknot-p-d'']"
proof -
  note t = reads_after_creation_do_not_depend_on_secrets [where env = example_env and req = example_request
      and pw = "''other''" and pat = "''ghp_other''" and path = "[]" and u = example_user
      and st = emptyStore and qerr = None and i = example_id and v = example_user
      and limit = 50 and offset = 0]
  have a: "service_GetDeployment None
       (snd (CreateDeploymentWithEnvFile example_env example_request [] example_user emptyStore))
       example_id
     = Inr (creationResponse example_request example_id 1000 3000 ''deployknot-p-d'')"
    by code_simp
  have b: "GetDeploymentsByUser None
       (snd (CreateDeploymentWithEnvFile example_env example_request [] example_user emptyStore))
       example_user 50 0
     = Inr [creationResponse example_request example_id 1000 3000 ''deployknot-p-d'']"
    by code_simp
  from t a b show ?thesis by simp
qed

text \<open>
  C8. Once the worker has run, the reads can carry the token. \<^verbatim>\<open>cloneRepository\<close>
  sends a command line that holds the token and, when the command fails, copies its
  combined output into the error message of step 1 and into the error it returns,
  which \<^verbatim>\<open>processDeploymentJob\<close> stores as the error message of the deployment row;
  \<^verbatim>\<open>GetDeployment\<close> and the list-by-user read return that field. For the branch
  \<^verbatim>\<open>feat(x)\<close> the shell refuses the command line and quotes it, so the error message
  of both reads holds \<^verbatim>\<open>ghp_token\<close>, and the request that differs only in its
  secrets gets different reads.
\<close>

theorem failed_clone_puts_token_in_reads:
  "map_sum id resp_ErrorMessage
     (service_GetDeployment None
        (deployAndRun example_env bashWorker branchRequest example_user) example_id)
     = Inr (Some (''Deployment failed: failed to clone repository: git clone failed: ''
                  @ ''Process exited with status 2, output: ''
                  @ snd (syntaxErrorShell
                           (''git clone https://ghp_token@github.com/x/y.git /tmp/deployknot-app''
                            @ '' && cd /tmp/deployknot-app && git checkout feat(x)''))))
   \<and> map_sum id (map resp_ErrorMessage)
       (GetDeploymentsByUser None
          (deployAndRun example_env bashWorker branchRequest example_user) example_user 50 0)
     = Inr [Some (''Deployment failed: failed to clone repository: git clone failed: ''
                  @ ''Process exited with status 2, output: ''
                  @ snd (syntaxErrorShell
                           (''git clone https://ghp_token@github.com/x/y.git /tmp/deployknot-app''
                            @ '' && cd /tmp/deployknot-app && git checkout feat(x)'')))]
   \<and> service_GetDeployment None
       (deployAndRun example_env bashWorker branchRequestOtherSecrets example_user) example_id
     \<noteq> service_GetDeployment None
         (deployAndRun example_env bashWorker branchRequest example_user) example_id
   \<and> GetDeploymentsByUser None
       (deployAndRun example_env bashWorker branchRequestOtherSecrets example_user)
       example_user 50 0
     \<noteq> GetDeploymentsByUser None
         (deployAndRun example_env bashWorker branchRequest example_user) example_user 50 0"
proof -
  let ?st = "deployAndRun example_env bashWorker branchRequest example_user"
  let ?st' = "deployAndRun example_env bashWorker branchRequestOtherSecrets example_user"
  let ?msg = "\<lambda>pat. ''Deployment failed: failed to clone repository: git clone failed: ''
                  @ ''Process exited with status 2, output: ''
                  @ snd (syntaxErrorShell
                           (''git clone https://'' @ pat
                            @ ''@github.com/x/y.git /tmp/deployknot-app''
                            @ '' && cd /tmp/deployknot-app && git checkout feat(x)''))"
  have a: "map_sum id resp_ErrorMessage (service_GetDeployment None ?st example_id)
             = Inr (Some (?msg ''ghp_token''))"
    by code_simp
  have b: "map_sum id (map resp_ErrorMessage) (GetDeploymentsByUser None ?st example_user 50 0)
             = Inr [Some (?msg ''ghp_token'')]"
    by code_simp
  have a': "map_sum id resp_ErrorMessage (service_GetDeployment None ?st' example_id)
             = Inr (Some (?msg ''ghp_other''))"
    by code_simp
  have b': "map_sum id (map resp_ErrorMessage) (GetDeploymentsByUser None ?st' example_user 50 0)
             = Inr [Some (?msg ''ghp_other'')]"
    by code_simp
  have m: "?msg ''ghp_other'' \<noteq> ?msg ''ghp_token''" by (simp add: syntaxErrorShell_def)
  have c: "service_GetDeployment None ?st' example_id \<noteq> service_GetDeployment None ?st example_id"
  proof
    assume "service_GetDeployment None ?st' example_id = service_GetDeployment None ?st example_id"
    then have "map_sum id resp_ErrorMessage (service_GetDeployment None ?st' example_id)
                 = map_sum id resp_ErrorMessage (service_GetDeployment None ?st example_id)"
      by (rule arg_cong)
    with a a' m show False by simp
  qed
  have d: "GetDeploymentsByUser None ?st' example_user 50 0
             \<noteq> GetDeploymentsByUser None ?st example_user 50 0"
  proof
    assume "GetDeploymentsByUser None ?st' example_user 50 0
              = GetDeploymentsByUser None ?st example_user 50 0"
    then have "map_sum id (map resp_ErrorMessage) (GetDeploymentsByUser None ?st' example_user 50 0)
                 = map_sum id (map resp_ErrorMessage) (GetDeploymentsByUser None ?st example_user 50 0)"
      by (rule arg_cong)
    with b b' m show False by simp
  qed
  from a b c d show ?thesis by simp
qed

section \<open>Abandoning the remaining steps\<close>

lemma setStepStatus_keys:
  "step_ID (setStepStatus now status msg r) = step_ID r"
  "step_DeploymentID (setStepStatus now status msg r) = step_DeploymentID r"
  "step_StepOrder (setStepStatus now status msg r) = step_StepOrder r"
  by (simp_all add: setStepStatus_def stampCompleted_def Let_def)

lemma find_distinct_key:
  "distinct (map f xs) \<Longrightarrow> x \<in> set xs \<Longrightarrow> find (\<lambda>s. f s = f x) xs = Some x"
  by (induction xs) (auto simp: image_iff)

lemma write_back_same:
  "r\<lparr>step_Status := step_Status (setStepStatus now status msg r),
     step_StartedAt := step_StartedAt (setStepStatus now status msg r),
     step_CompletedAt := step_CompletedAt (setStepStatus now status msg r),
     step_DurationMs := step_DurationMs (setStepStatus now status msg r),
     step_ErrorMessage := step_ErrorMessage (setStepStatus now status msg r)\<rparr>
   = setStepStatus now status msg r"
  by (simp add: setStepStatus_def stampCompleted_def Let_def split: option.splits)

lemma updateDeploymentStep_effect:
  assumes ok: "w_getSteps env = None" "w_updateStep env ord status = None"
    and wf: "stepsWellFormed d st"
    and r: "r \<in> set (deployment_steps st)" "step_DeploymentID r = d" "step_StepOrder r = ord"
  shows "updateDeploymentStep env d ord status msg st =
           (None, st\<lparr>deployment_steps :=
                      map (\<lambda>x. if step_DeploymentID x = d \<and> step_StepOrder x = ord
                               then setStepStatus (w_clock env ord status) status msg x else x)
                        (deployment_steps st)\<rparr>)"
proof -
  let ?snap = "sort_key step_StepOrder (stepsOf d st)"
  have rin: "r \<in> set ?snap" using r by (simp add: stepsOf_def)
  have dist: "distinct (map step_StepOrder ?snap)"
    using wf by (simp add: stepsWellFormed_def distinct_map)
  have found: "find (\<lambda>s. step_StepOrder s = ord) ?snap = Some r"
    using find_distinct_key [OF dist rin] r by simp
  have same: "(step_ID x = step_ID r) = (step_DeploymentID x = d \<and> step_StepOrder x = ord)"
    if x: "x \<in> set (deployment_steps st)" for x
  proof
    assume "step_ID x = step_ID r"
    with wf x r have "x = r"
      by (auto simp: stepsWellFormed_def distinct_map dest: inj_onD)
    with r show "step_DeploymentID x = d \<and> step_StepOrder x = ord" by simp
  next
    assume a: "step_DeploymentID x = d \<and> step_StepOrder x = ord"
    with x have "x \<in> set (stepsOf d st)" by (simp add: stepsOf_def)
    moreover from r have "r \<in> set (stepsOf d st)" by (simp add: stepsOf_def)
    moreover have "inj_on step_StepOrder (set (stepsOf d st))"
      using wf by (simp add: stepsWellFormed_def distinct_map)
    ultimately have "x = r" using a r by (auto dest: inj_onD)
    then show "step_ID x = step_ID r" by simp
  qed
  have "map (\<lambda>x. if step_ID x = step_ID (setStepStatus (w_clock env ord status) status msg r)
                  then x\<lparr>step_Status := step_Status (setStepStatus (w_clock env ord status) status msg r),
                         step_StartedAt := step_StartedAt (setStepStatus (w_clock env ord status) status msg r),
                         step_CompletedAt := step_CompletedAt (setStepStatus (w_clock env ord status) status msg r),
                         step_DurationMs := step_DurationMs (setStepStatus (w_clock env ord status) status msg r),
                         step_ErrorMessage := step_ErrorMessage (setStepStatus (w_clock env ord status) status msg r)\<rparr>
                  else x) (deployment_steps st)
        = map (\<lambda>x. if step_DeploymentID x = d \<and> step_StepOrder x = ord
                     then setStepStatus (w_clock env ord status) status msg x else x)
            (deployment_steps st)"
  proof (rule map_cong [OF refl])
    fix x assume x: "x \<in> set (deployment_steps st)"
    show "(if step_ID x = step_ID (setStepStatus (w_clock env ord status) status msg r)
           then x\<lparr>step_Status := step_Status (setStepStatus (w_clock env ord status) status msg r),
                  step_StartedAt := step_StartedAt (setStepStatus (w_clock env ord status) status msg r),
                  step_CompletedAt := step_CompletedAt (setStepStatus (w_clock env ord status) status msg r),
                  step_DurationMs := step_DurationMs (setStepStatus (w_clock env ord status) status msg r),
                  step_ErrorMessage := step_ErrorMessage (setStepStatus (w_clock env ord status) status msg r)\<rparr>
           else x)
          = (if step_DeploymentID x = d \<and> step_StepOrder x = ord
             then setStepStatus (w_clock env ord status) status msg x else x)"
    proof (cases "step_ID x = step_ID r")
      case True
      with wf x r have xr: "x = r"
        by (auto simp: stepsWellFormed_def distinct_map dest: inj_onD)
      show ?thesis using r by (simp add: xr setStepStatus_keys write_back_same)
    next
      case False
      with same [OF x] have "\<not> (step_DeploymentID x = d \<and> step_StepOrder x = ord)" by simp
      with False show ?thesis by (auto simp: setStepStatus_keys)
    qed
  qed
  then show ?thesis
    using ok found
    by (simp add: updateDeploymentStep_def service_GetDeploymentSteps_def
          repo_GetDeploymentSteps_def stepsOf_def service_UpdateDeploymentStep_def
          repo_UpdateDeploymentStep_def)
qed


lemma updateDeploymentStep_keeps_rest:
  "deployments (snd (updateDeploymentStep env d ord status msg st)) = deployments st
   \<and> deployment_logs (snd (updateDeploymentStep env d ord status msg st)) = deployment_logs st
   \<and> queue (snd (updateDeploymentStep env d ord status msg st)) = queue st"
  by (simp add: updateDeploymentStep_def service_GetDeploymentSteps_def
        repo_GetDeploymentSteps_def service_UpdateDeploymentStep_def
        repo_UpdateDeploymentStep_def split: option.splits sum.splits)

lemma stepsWellFormed_map:
  assumes "stepsWellFormed d st"
    and "\<And>x. step_ID (f x) = step_ID x \<and> step_DeploymentID (f x) = step_DeploymentID x
              \<and> step_StepOrder (f x) = step_StepOrder x"
  shows "stepsWellFormed d (st\<lparr>deployment_steps := map f (deployment_steps st)\<rparr>)"
proof -
  have a: "map step_ID (map f xs) = map step_ID xs" for xs
    using assms(2) by (induction xs) simp_all
  have b: "map step_StepOrder (filter (\<lambda>s. step_DeploymentID s = d) (map f xs))
           = map step_StepOrder (filter (\<lambda>s. step_DeploymentID s = d) xs)" for xs
    using assms(2) by (induction xs) simp_all
  show ?thesis
    using assms(1) by (simp add: stepsWellFormed_def stepsOf_def a b del: map_map)
qed

lemma abandon_keys:
  "step_ID (abandon env k r) = step_ID r"
  "step_DeploymentID (abandon env k r) = step_DeploymentID r"
  "step_StepOrder (abandon env k r) = step_StepOrder r"
  by (simp_all add: abandon_def stampCompleted_def)

lemma setStepStatus_failed:
  "setStepStatus (w_clock env (step_StepOrder r) DeploymentStatusFailed) DeploymentStatusFailed
     (Some (abandonedMsg k)) r = abandon env k r"
  by (simp add: setStepStatus_def abandon_def Let_def)

lemma markRemainingLoop_effect:
  assumes ok: "w_getSteps env = None" "\<forall>ord. w_updateStep env ord DeploymentStatusFailed = None"
  shows "stepsWellFormed d st \<Longrightarrow> distinct (map step_StepOrder todo) \<Longrightarrow>
         (\<forall>s\<in>set todo. \<exists>r\<in>set (deployment_steps st).
              step_DeploymentID r = d \<and> step_StepOrder r = step_StepOrder s) \<Longrightarrow>
         markRemainingLoop env d k todo st =
           st\<lparr>deployment_steps :=
                map (\<lambda>x. if step_DeploymentID x = d
                            \<and> step_StepOrder x \<in> step_StepOrder ` {s \<in> set todo. remainingGuard k s}
                         then abandon env k x else x)
                  (deployment_steps st)\<rparr>"
proof (induction todo arbitrary: st)
  case Nil
  then show ?case by simp
next
  case (Cons s todo)
  let ?O = "step_StepOrder ` {t \<in> set todo. remainingGuard k t}"
  show ?case
  proof (cases "remainingGuard k s")
    case False
    then have eq: "step_StepOrder ` {t \<in> set (s # todo). remainingGuard k t} = ?O"
      by auto
    from Cons.prems have "markRemainingLoop env d k todo st =
        st\<lparr>deployment_steps :=
             map (\<lambda>x. if step_DeploymentID x = d \<and> step_StepOrder x \<in> ?O
                      then abandon env k x else x) (deployment_steps st)\<rparr>"
      by (intro Cons.IH) simp_all
    with False eq show ?thesis by simp
  next
    case True
    let ?f = "\<lambda>x. if step_DeploymentID x = d \<and> step_StepOrder x = step_StepOrder s
                   then abandon env k x else x"
    let ?st1 = "st\<lparr>deployment_steps := map ?f (deployment_steps st)\<rparr>"
    from Cons.prems obtain r where r: "r \<in> set (deployment_steps st)"
      "step_DeploymentID r = d" "step_StepOrder r = step_StepOrder s"
      by auto
    have upd: "updateDeploymentStep env d (step_StepOrder s) DeploymentStatusFailed
                 (Some (abandonedMsg k)) st = (None, ?st1)"
    proof -
      have "(\<lambda>x. if step_DeploymentID x = d \<and> step_StepOrder x = step_StepOrder s
                 then setStepStatus (w_clock env (step_StepOrder s) DeploymentStatusFailed)
                        DeploymentStatusFailed (Some (abandonedMsg k)) x
                 else x) = ?f"
        by (auto simp: fun_eq_iff setStepStatus_failed [symmetric])
      then show ?thesis
        using updateDeploymentStep_effect [where r = r and env = env and d = d and st = st
            and ord = "step_StepOrder s" and status = DeploymentStatusFailed
            and msg = "Some (abandonedMsg k)"] ok Cons.prems(1) r
        by simp
    qed
    have wf1: "stepsWellFormed d ?st1"
      using Cons.prems(1) by (intro stepsWellFormed_map) (simp_all add: abandon_keys)
    have ex1: "\<forall>t\<in>set todo. \<exists>r\<in>set (deployment_steps ?st1).
                 step_DeploymentID r = d \<and> step_StepOrder r = step_StepOrder t"
    proof
      fix t assume "t \<in> set todo"
      with Cons.prems(3) obtain q where q: "q \<in> set (deployment_steps st)"
        "step_DeploymentID q = d" "step_StepOrder q = step_StepOrder t" by auto
      then have "?f q \<in> set (deployment_steps ?st1)" by simp
      moreover have "step_DeploymentID (?f q) = d \<and> step_StepOrder (?f q) = step_StepOrder t"
        using q by (simp add: abandon_keys)
      ultimately show "\<exists>r\<in>set (deployment_steps ?st1).
                 step_DeploymentID r = d \<and> step_StepOrder r = step_StepOrder t"
        by blast
    qed
    have ih: "markRemainingLoop env d k todo ?st1 =
        ?st1\<lparr>deployment_steps :=
             map (\<lambda>x. if step_DeploymentID x = d \<and> step_StepOrder x \<in> ?O
                      then abandon env k x else x) (deployment_steps ?st1)\<rparr>"
      using Cons.prems(2) wf1 ex1 by (intro Cons.IH) simp_all
    have notin: "step_StepOrder s \<notin> ?O"
      using Cons.prems(2) by auto
    have eq: "step_StepOrder ` {t \<in> set (s # todo). remainingGuard k t}
              = insert (step_StepOrder s) ?O"
      using True by auto
    have comb: "(\<lambda>x. if step_DeploymentID x = d \<and> step_StepOrder x \<in> ?O
                      then abandon env k x else x) (?f x)
                = (if step_DeploymentID x = d \<and> step_StepOrder x \<in> insert (step_StepOrder s) ?O
                   then abandon env k x else x)" for x
      using notin
      by (auto simp: abandon_keys)
    have "markRemainingLoop env d k (s # todo) st = markRemainingLoop env d k todo ?st1"
      using True upd by simp
    also have "\<dots> = st\<lparr>deployment_steps :=
             map (\<lambda>x. if step_DeploymentID x = d \<and> step_StepOrder x \<in> insert (step_StepOrder s) ?O
                      then abandon env k x else x) (deployment_steps st)\<rparr>"
      by (simp only: ih) (simp add: comb o_def)
    finally show ?thesis by (simp only: eq)
  qed
qed

lemma markRemainingStepsAsFailed_effect:
  assumes "w_getSteps env = None"
    and "\<forall>ord. w_updateStep env ord DeploymentStatusFailed = None"
    and "stepsWellFormed d st"
  shows "markRemainingStepsAsFailed env d k st =
           st\<lparr>deployment_steps :=
                map (\<lambda>r. if step_DeploymentID r = d \<and> remainingGuard k r
                         then abandon env k r else r)
                  (deployment_steps st)\<rparr>"
proof -
  let ?snap = "sort_key step_StepOrder (stepsOf d st)"
  have dist: "distinct (map step_StepOrder ?snap)"
    using assms(3) by (simp add: stepsWellFormed_def distinct_map)
  have ex: "\<forall>s\<in>set ?snap. \<exists>r\<in>set (deployment_steps st).
              step_DeploymentID r = d \<and> step_StepOrder r = step_StepOrder s"
    by (auto simp: stepsOf_def)
  have loop: "markRemainingLoop env d k ?snap st =
           st\<lparr>deployment_steps :=
                map (\<lambda>x. if step_DeploymentID x = d
                            \<and> step_StepOrder x \<in> step_StepOrder ` {s \<in> set ?snap. remainingGuard k s}
                         then abandon env k x else x)
                  (deployment_steps st)\<rparr>"
    using assms dist ex by (intro markRemainingLoop_effect) 
  have inj: "inj_on step_StepOrder (set (stepsOf d st))"
    using assms(3) by (simp add: stepsWellFormed_def distinct_map)
  have cond: "(step_DeploymentID x = d
                 \<and> step_StepOrder x \<in> step_StepOrder ` {s \<in> set ?snap. remainingGuard k s})
              = (step_DeploymentID x = d \<and> remainingGuard k x)"
    if x: "x \<in> set (deployment_steps st)" for x
  proof (cases "step_DeploymentID x = d")
    case False
    then show ?thesis by simp
  next
    case True
    with x have xin: "x \<in> set (stepsOf d st)" by (simp add: stepsOf_def)
    show ?thesis
    proof
      assume "step_DeploymentID x = d
                \<and> step_StepOrder x \<in> step_StepOrder ` {s \<in> set ?snap. remainingGuard k s}"
      then obtain s where s: "s \<in> set (stepsOf d st)" "remainingGuard k s"
        "step_StepOrder x = step_StepOrder s" by auto
      with inj xin have "x = s" by (auto dest: inj_onD)
      with s True show "step_DeploymentID x = d \<and> remainingGuard k x" by simp
    next
      assume "step_DeploymentID x = d \<and> remainingGuard k x"
      with xin show "step_DeploymentID x = d
                \<and> step_StepOrder x \<in> step_StepOrder ` {s \<in> set ?snap. remainingGuard k s}"
        by auto
    qed
  qed
  have "map (\<lambda>x. if step_DeploymentID x = d
                            \<and> step_StepOrder x \<in> step_StepOrder ` {s \<in> set ?snap. remainingGuard k s}
                         then abandon env k x else x) (deployment_steps st)
        = map (\<lambda>r. if step_DeploymentID r = d \<and> remainingGuard k r
                         then abandon env k r else r) (deployment_steps st)"
    by (rule map_cong [OF refl]) (simp only: cond)
  with loop show ?thesis
    using assms(1)
    by (simp add: markRemainingStepsAsFailed_def service_GetDeploymentSteps_def
          repo_GetDeploymentSteps_def stepsOf_def)
qed


text \<open>
  C10. When the step table can be read and written, the ids of the step rows are
  unique and the steps of the deployment have different orders,
  \<^verbatim>\<open>markRemainingStepsAsFailed\<close> with failed order \<open>k\<close> rewrites exactly the rows of the
  deployment that are pending with an order above \<open>k\<close>, or running whatever their
  order: each gets the status \<^verbatim>\<open>failed\<close>, the reason
  \<^verbatim>\<open>Step abandoned due to failure in step k\<close> and a completion stamp. Every other row,
  so every row that is completed or failed, stays as it is, and so does the rest of the
  store.
\<close>

theorem markRemainingStepsAsFailed_marks_exactly:
  assumes "w_getSteps env = None"
    and "\<forall>ord. w_updateStep env ord DeploymentStatusFailed = None"
    and "stepsWellFormed d st"
  shows "markRemainingStepsAsFailed env d k st =
           st\<lparr>deployment_steps :=
                map (\<lambda>r. if step_DeploymentID r = d
                            \<and> ((step_StepOrder r > k \<and> step_Status r = DeploymentStatusPending)
                                \<or> step_Status r = DeploymentStatusRunning)
                         then abandon env k r else r)
                  (deployment_steps st)\<rparr>
         \<and> (\<forall>r. step_Status (abandon env k r) = DeploymentStatusFailed
                \<and> step_ErrorMessage (abandon env k r)
                    = Some (''Step abandoned due to failure in step '' @ Itoa k))
         \<and> (\<forall>r\<in>set (deployment_steps st).
               step_Status r = DeploymentStatusCompleted \<or> step_Status r = DeploymentStatusFailed
               \<longrightarrow> r \<in> set (deployment_steps (markRemainingStepsAsFailed env d k st)))"
proof -
  have eff: "markRemainingStepsAsFailed env d k st =
           st\<lparr>deployment_steps :=
                map (\<lambda>r. if step_DeploymentID r = d
                            \<and> ((step_StepOrder r > k \<and> step_Status r = DeploymentStatusPending)
                                \<or> step_Status r = DeploymentStatusRunning)
                         then abandon env k r else r)
                  (deployment_steps st)\<rparr>"
    using markRemainingStepsAsFailed_effect [OF assms, of k]
    by (simp add: remainingGuard_def)
  have ab: "\<forall>r. step_Status (abandon env k r) = DeploymentStatusFailed
                \<and> step_ErrorMessage (abandon env k r)
                    = Some (''Step abandoned due to failure in step '' @ Itoa k)"
    by (simp add: abandon_def stampCompleted_def abandonedMsg_def)
  have keep: "\<forall>r\<in>set (deployment_steps st).
               step_Status r = DeploymentStatusCompleted \<or> step_Status r = DeploymentStatusFailed
               \<longrightarrow> r \<in> set (deployment_steps (markRemainingStepsAsFailed env d k st))"
  proof (intro ballI impI)
    fix r assume r: "r \<in> set (deployment_steps st)"
      and s: "step_Status r = DeploymentStatusCompleted \<or> step_Status r = DeploymentStatusFailed"
    let ?f = "\<lambda>r. if step_DeploymentID r = d
                            \<and> ((step_StepOrder r > k \<and> step_Status r = DeploymentStatusPending)
                                \<or> step_Status r = DeploymentStatusRunning)
                         then abandon env k r else r"
    from s have "?f r = r" by auto
    with r have "r \<in> ?f ` set (deployment_steps st)" by force
    then show "r \<in> set (deployment_steps (markRemainingStepsAsFailed env d k st))"
      by (simp add: eff)
  qed
  from eff ab keep show ?thesis by blast
qed

theorem markRemainingStepsAsFailed_marks_exactly_witness:
  "stepsWellFormed example_id mixedStore
   \<and> map (\<lambda>r. (step_StepOrder r, step_Status r, step_ErrorMessage r))
       (deployment_steps (markRemainingStepsAsFailed okWorker example_id 3 mixedStore))
     = [(1, DeploymentStatusFailed, Some ''Step abandoned due to failure in step 3''),
        (2, DeploymentStatusPending, None),
        (3, DeploymentStatusFailed, Some ''Docker build failed''),
        (4, DeploymentStatusFailed, Some ''Step abandoned due to failure in step 3''),
        (5, DeploymentStatusCompleted, None)]"
proof -
  have a: "w_getSteps okWorker = None" by (simp add: okWorker_def)
  have b: "\<forall>ord. w_updateStep okWorker ord DeploymentStatusFailed = None"
    by (simp add: okWorker_def)
  have c: "stepsWellFormed example_id mixedStore" by code_simp
  note t = markRemainingStepsAsFailed_marks_exactly [OF a b c, of 3]
  then have "markRemainingStepsAsFailed okWorker example_id 3 mixedStore =
           mixedStore\<lparr>deployment_steps :=
                map (\<lambda>r. if step_DeploymentID r = example_id
                            \<and> ((step_StepOrder r > 3 \<and> step_Status r = DeploymentStatusPending)
                                \<or> step_Status r = DeploymentStatusRunning)
                         then abandon okWorker 3 r else r)
                  (deployment_steps mixedStore)\<rparr>"
    by blast
  moreover have "map (\<lambda>r. (step_StepOrder r, step_Status r, step_ErrorMessage r))
       (deployment_steps (mixedStore\<lparr>deployment_steps :=
                map (\<lambda>r. if step_DeploymentID r = example_id
                            \<and> ((step_StepOrder r > 3 \<and> step_Status r = DeploymentStatusPending)
                                \<or> step_Status r = DeploymentStatusRunning)
                         then abandon okWorker 3 r else r)
                  (deployment_steps mixedStore)\<rparr>))
     = [(1, DeploymentStatusFailed, Some ''Step abandoned due to failure in step 3''),
        (2, DeploymentStatusPending, None),
        (3, DeploymentStatusFailed, Some ''Docker build failed''),
        (4, DeploymentStatusFailed, Some ''Step abandoned due to failure in step 3''),
        (5, DeploymentStatusCompleted, None)]"
    by code_simp
  ultimately show ?thesis using c by simp
qed

section \<open>Creating a deployment\<close>

lemma createSteps_all_ok:
  "\<forall>name. env_insertStep env name = None \<Longrightarrow>
   createSteps env d tbl st =
     (None, st\<lparr>deployment_steps :=
                 deployment_steps st @ map (\<lambda>(name, ord). newStep env d name ord) tbl\<rparr>)"
  by (induction env d tbl st rule: createSteps.induct)
     (simp_all add: repo_CreateDeploymentStep_def)

lemma createWith_steps:
  assumes "GetPortAsInt req = Inr port" "env_insertDeployment env = None"
    "\<forall>name. env_insertStep env name = None"
  shows "deployment_steps (snd (createWith env req u extra st)) =
           deployment_steps st @ initialSteps env (env_newID env)"
  using assms
  by (simp add: createWith_def repo_CreateDeployment_def createInitialSteps_def
        createSteps_all_ok EnqueueDeploymentJob_def Let_def initialSteps_def
        split: option.splits)

lemma five_rows:
  "map (\<lambda>s. (step_StepName s, step_StepOrder s)) (initialSteps env d)
   = [(''validate_credentials'', 1), (''git_clone'', 2), (''docker_build'', 3),
      (''docker_run'', 4), (''health_check'', 5)]"
  "list_all (\<lambda>s. step_DeploymentID s = d \<and> step_Status s = DeploymentStatusPending)
     (initialSteps env d)"
  by (simp_all add: initialSteps_def stepTable_def newStep_def)

text \<open>
  C1. When the port is valid and the database accepts the deployment row and every
  step row, a creation through either entry point appends exactly five step rows for the
  new deployment, all pending, in this order: \<^verbatim>\<open>validate_credentials\<close> with
  order 1, \<^verbatim>\<open>git_clone\<close> 2, \<^verbatim>\<open>docker_build\<close> 3, \<^verbatim>\<open>docker_run\<close> 4 and
  \<^verbatim>\<open>health_check\<close> 5; the rows already in the table are kept.
\<close>

theorem creation_writes_five_step_rows:
  assumes "GetPortAsInt req = Inr port"
    and "env_insertDeployment env = None"
    and "\<forall>name. env_insertStep env name = None"
  shows "map (\<lambda>s. (step_StepName s, step_StepOrder s))
           (stepsWritten st (snd (CreateDeployment env req st)))
         = [(''validate_credentials'', 1), (''git_clone'', 2), (''docker_build'', 3),
            (''docker_run'', 4), (''health_check'', 5)]
       \<and> list_all (\<lambda>s. step_DeploymentID s = env_newID env
                         \<and> step_Status s = DeploymentStatusPending)
           (stepsWritten st (snd (CreateDeployment env req st)))
       \<and> take (length (deployment_steps st))
           (deployment_steps (snd (CreateDeployment env req st))) = deployment_steps st
       \<and> map (\<lambda>s. (step_StepName s, step_StepOrder s))
           (stepsWritten st (snd (CreateDeploymentWithEnvFile env req path u st)))
         = [(''validate_credentials'', 1), (''git_clone'', 2), (''docker_build'', 3),
            (''docker_run'', 4), (''health_check'', 5)]
       \<and> list_all (\<lambda>s. step_DeploymentID s = env_newID env
                         \<and> step_Status s = DeploymentStatusPending)
           (stepsWritten st (snd (CreateDeploymentWithEnvFile env req path u st)))
       \<and> take (length (deployment_steps st))
           (deployment_steps (snd (CreateDeploymentWithEnvFile env req path u st)))
         = deployment_steps st"
  by (simp add: CreateDeployment_def CreateDeploymentWithEnvFile_def stepsWritten_def
        createWith_steps [OF assms] five_rows)

theorem creation_writes_five_step_rows_witness:
  "GetPortAsInt example_request = Inr 3000
   \<and> map (\<lambda>s. (step_StepName s, step_StepOrder s))
       (deployment_steps (snd (CreateDeploymentWithEnvFile example_env example_request []
                                 example_user emptyStore)))
     = [(''validate_credentials'', 1), (''git_clone'', 2), (''docker_build'', 3),
        (''docker_run'', 4), (''health_check'', 5)]"
proof -
  have a: "GetPortAsInt example_request = Inr 3000" by code_simp
  have b: "env_insertDeployment example_env = None" by (simp add: example_env_def)
  have c: "\<forall>name. env_insertStep example_env name = None" by (simp add: example_env_def)
  from creation_writes_five_step_rows [OF a b c, of emptyStore "[]" example_user]
  have "map (\<lambda>s. (step_StepName s, step_StepOrder s))
           (stepsWritten emptyStore (snd (CreateDeploymentWithEnvFile example_env example_request []
                                 example_user emptyStore)))
         = [(''validate_credentials'', 1), (''git_clone'', 2), (''docker_build'', 3),
            (''docker_run'', 4), (''health_check'', 5)]"
    by blast
  then show ?thesis using a by (simp add: stepsWritten_def emptyStore_def)
qed

text \<open>
  The rows written are not the four rows \<^verbatim>\<open>git_clone\<close> 1 to \<^verbatim>\<open>health_check\<close> 4.
\<close>

theorem four_step_rows_counterexample:
  "map (\<lambda>s. (step_StepName s, step_StepOrder s))
     (stepsWritten emptyStore (snd (CreateDeployment example_env example_request emptyStore)))
   \<noteq> [(''git_clone'', 1), (''docker_build'', 2), (''docker_run'', 3), (''health_check'', 4)]
   \<and> length (stepsWritten emptyStore
               (snd (CreateDeployment example_env example_request emptyStore))) = 5
   \<and> length (stepsWritten emptyStore
               (snd (CreateDeploymentWithEnvFile example_env example_request [] example_user
                       emptyStore))) = 5"
  by code_simp

lemma createSteps_queue: "queue (snd (createSteps env d tbl st)) = queue st"
  by (induction env d tbl st rule: createSteps.induct)
     (simp_all add: repo_CreateDeploymentStep_def split: option.splits)

lemma createWith_port_error:
  "GetPortAsInt req = Inl e \<Longrightarrow>
   createWith env req u extra st = (Inl (''invalid port: '' @ e), st)"
  by (simp add: createWith_def)

lemma createWith_insert_error:
  "GetPortAsInt req = Inr port \<Longrightarrow> env_insertDeployment env = Some e \<Longrightarrow>
   createWith env req u extra st
     = (Inl (''failed to create deployment: failed to create deployment: '' @ e), st)"
  by (simp add: createWith_def repo_CreateDeployment_def Let_def)

lemma createWith_success:
  "GetPortAsInt req = Inr port \<Longrightarrow> env_insertDeployment env = None \<Longrightarrow>
   fst (createWith env req u extra st)
     = Inr (creationResponse req (env_newID env) (env_now env) port
              (generateContainerName (env_newID env) (req_ContainerName req)
                 (req_ProjectName req) (req_DeploymentName req)))
   \<and> queue (snd (createWith env req u extra st))
     = (case env_enqueue env of
          None \<Rightarrow> newJob env req port extra # queue st
        | Some e \<Rightarrow> queue st)"
  by (simp add: createWith_def repo_CreateDeployment_def Let_def createInitialSteps_def
        createSteps_queue EnqueueDeploymentJob_def newJob_def split: option.splits)

lemma createWith_queue_changed:
  "queue (snd (createWith env req u extra st)) \<noteq> queue st \<Longrightarrow>
   (\<exists>port. GetPortAsInt req = Inr port) \<and> env_insertDeployment env = None
   \<and> env_enqueue env = None"
  by (auto simp: createWith_def repo_CreateDeployment_def Let_def createInitialSteps_def
        createSteps_queue EnqueueDeploymentJob_def split: sum.splits option.splits)

text \<open>
  C4. A creation surfaces an error, writes nothing and enqueues nothing when the port
  is invalid or the write of the deployment row fails. Once the deployment row is
  written the call succeeds whatever happens to the step rows, and it enqueues the job
  whenever the queue accepts it: the error of a step-row write is logged and dropped. A
  job is enqueued only when the port was valid and the deployment row was written.
\<close>

theorem creation_error_only_without_deployment_row:
  "(GetPortAsInt req = Inl e \<longrightarrow>
      CreateDeployment env req st = (Inl (''invalid port: '' @ e), st)
      \<and> CreateDeploymentWithEnvFile env req path u st = (Inl (''invalid port: '' @ e), st))
   \<and> (GetPortAsInt req = Inr port \<and> env_insertDeployment env = Some e \<longrightarrow>
      CreateDeployment env req st
        = (Inl (''failed to create deployment: failed to create deployment: '' @ e), st)
      \<and> CreateDeploymentWithEnvFile env req path u st
        = (Inl (''failed to create deployment: failed to create deployment: '' @ e), st))
   \<and> (GetPortAsInt req = Inr port \<and> env_insertDeployment env = None \<longrightarrow>
      (\<exists>resp. fst (CreateDeployment env req st) = Inr resp)
      \<and> (\<exists>resp. fst (CreateDeploymentWithEnvFile env req path u st) = Inr resp)
      \<and> length (queue (snd (CreateDeployment env req st)))
          = (if env_enqueue env = None then Suc (length (queue st)) else length (queue st))
      \<and> length (queue (snd (CreateDeploymentWithEnvFile env req path u st)))
          = (if env_enqueue env = None then Suc (length (queue st)) else length (queue st)))
   \<and> (queue (snd (CreateDeployment env req st)) \<noteq> queue st
        \<or> queue (snd (CreateDeploymentWithEnvFile env req path u st)) \<noteq> queue st \<longrightarrow>
      (\<exists>p. GetPortAsInt req = Inr p) \<and> env_insertDeployment env = None
      \<and> env_enqueue env = None)"
proof -
  have a: "GetPortAsInt req = Inl e \<longrightarrow>
      CreateDeployment env req st = (Inl (''invalid port: '' @ e), st)
      \<and> CreateDeploymentWithEnvFile env req path u st = (Inl (''invalid port: '' @ e), st)"
    by (simp add: CreateDeployment_def CreateDeploymentWithEnvFile_def createWith_port_error)
  have b: "GetPortAsInt req = Inr port \<and> env_insertDeployment env = Some e \<longrightarrow>
      CreateDeployment env req st
        = (Inl (''failed to create deployment: failed to create deployment: '' @ e), st)
      \<and> CreateDeploymentWithEnvFile env req path u st
        = (Inl (''failed to create deployment: failed to create deployment: '' @ e), st)"
    by (simp add: CreateDeployment_def CreateDeploymentWithEnvFile_def createWith_insert_error)
  have c: "GetPortAsInt req = Inr port \<and> env_insertDeployment env = None \<longrightarrow>
      (\<exists>resp. fst (CreateDeployment env req st) = Inr resp)
      \<and> (\<exists>resp. fst (CreateDeploymentWithEnvFile env req path u st) = Inr resp)
      \<and> length (queue (snd (CreateDeployment env req st)))
          = (if env_enqueue env = None then Suc (length (queue st)) else length (queue st))
      \<and> length (queue (snd (CreateDeploymentWithEnvFile env req path u st)))
          = (if env_enqueue env = None then Suc (length (queue st)) else length (queue st))"
    by (auto simp: CreateDeployment_def CreateDeploymentWithEnvFile_def createWith_success
          split: option.splits)
  have d: "queue (snd (CreateDeployment env req st)) \<noteq> queue st
        \<or> queue (snd (CreateDeploymentWithEnvFile env req path u st)) \<noteq> queue st \<longrightarrow>
      (\<exists>p. GetPortAsInt req = Inr p) \<and> env_insertDeployment env = None
      \<and> env_enqueue env = None"
    using createWith_queue_changed
    unfolding CreateDeployment_def CreateDeploymentWithEnvFile_def by blast
  from a b c d show ?thesis by blast
qed

theorem creation_error_only_without_deployment_row_witness:
  "GetPortAsInt example_request = Inr 3000 \<and> env_insertDeployment stepFailEnv = None
   \<and> env_enqueue stepFailEnv = None
   \<and> length (queue (snd (CreateDeploymentWithEnvFile stepFailEnv example_request []
                            example_user emptyStore))) = Suc 0
   \<and> CreateDeploymentWithEnvFile
        (example_env\<lparr>env_insertDeployment := Some ''connection reset''\<rparr>) example_request []
        example_user emptyStore
     = (Inl ''failed to create deployment: failed to create deployment: connection reset'',
        emptyStore)"
proof -
  have a: "GetPortAsInt example_request = Inr 3000" by code_simp
  have b: "env_insertDeployment stepFailEnv = None" by (simp add: stepFailEnv_def example_env_def)
  have c: "env_enqueue stepFailEnv = None" by (simp add: stepFailEnv_def example_env_def)
  have d: "env_insertDeployment (example_env\<lparr>env_insertDeployment := Some ''connection reset''\<rparr>)
             = Some ''connection reset''" by simp
  have q: "queue emptyStore = []" by (simp add: emptyStore_def)
  from creation_error_only_without_deployment_row [where req = example_request and port = 3000
      and env = stepFailEnv and st = emptyStore and path = "[]" and u = example_user]
    a b c q
  have 1: "length (queue (snd (CreateDeploymentWithEnvFile stepFailEnv example_request []
                            example_user emptyStore))) = Suc 0"
    by simp
  from creation_error_only_without_deployment_row [where req = example_request and port = 3000
      and env = "example_env\<lparr>env_insertDeployment := Some ''connection reset''\<rparr>"
      and e = "''connection reset''" and st = emptyStore and path = "[]" and u = example_user]
    a d
  have 2: "CreateDeploymentWithEnvFile
        (example_env\<lparr>env_insertDeployment := Some ''connection reset''\<rparr>) example_request []
        example_user emptyStore
     = (Inl ''failed to create deployment: failed to create deployment: connection reset'',
        emptyStore)"
    by simp
  from a b c 1 2 show ?thesis by blast
qed

text \<open>
  With the database refusing the row of \<^verbatim>\<open>git_clone\<close>, the writing of the steps
  fails, and yet the creation succeeds and the job is enqueued.
\<close>

theorem step_write_failure_counterexample:
  "fst (createInitialSteps stepFailEnv example_id emptyStore)
     = Some ''failed to create step git_clone: failed to create deployment step: connection reset''
   \<and> fst (CreateDeploymentWithEnvFile stepFailEnv example_request [] example_user emptyStore)
     = Inr (creationResponse example_request example_id 1000 3000 ''deployknot-p-d'')
   \<and> map job_DeploymentID
       (queue (snd (CreateDeploymentWithEnvFile stepFailEnv example_request [] example_user
                      emptyStore))) = [example_id]
   \<and> map step_StepName
       (deployment_steps (snd (CreateDeploymentWithEnvFile stepFailEnv example_request []
                                 example_user emptyStore))) = [''validate_credentials'']
   \<and> fst (CreateDeployment stepFailEnv example_request emptyStore)
     = Inr (creationResponse example_request example_id 1000 3000 ''deployknot-p-d'')
   \<and> map job_DeploymentID
       (queue (snd (CreateDeployment stepFailEnv example_request emptyStore))) = [example_id]"
  by code_simp

section \<open>A run of the worker\<close>

text \<open>
  C2. The coordinator writes \<^verbatim>\<open>git_clone\<close> to \<^verbatim>\<open>health_check\<close> with the
  orders 2 to 5, and the pipeline updates the orders 1 to 4. In a run where every
  remote command and every database operation succeeds, the deployment is marked
  completed while the row of \<^verbatim>\<open>health_check\<close> is still pending.
\<close>

theorem completed_deployment_with_pending_step:
  "queue (snd (CreateDeployment example_env example_request emptyStore)) = [example_job]
   \<and> fst (processDeploymentJob okWorker example_job
            (snd (CreateDeployment example_env example_request emptyStore))) = None
   \<and> map dep_Status
       (deployments (snd (processDeploymentJob okWorker example_job
            (snd (CreateDeployment example_env example_request emptyStore)))))
     = [DeploymentStatusCompleted]
   \<and> map (\<lambda>s. (step_StepName s, step_StepOrder s, step_Status s))
       (deployment_steps (snd (processDeploymentJob okWorker example_job
            (snd (CreateDeployment example_env example_request emptyStore)))))
     = [(''validate_credentials'', 1, DeploymentStatusCompleted),
        (''git_clone'', 2, DeploymentStatusCompleted),
        (''docker_build'', 3, DeploymentStatusCompleted),
        (''docker_run'', 4, DeploymentStatusCompleted),
        (''health_check'', 5, DeploymentStatusPending)]"
  by code_simp

section \<open>The log stream\<close>

lemma pollTick_skips_second: "pollTick example_id (None, storeLater) (log_ID firstLog) = ([Heartbeat], log_ID firstLog)"
  by code_simp

lemma pollLoop_skips_second: "pollLoop example_id (replicate n (None, storeLater)) (log_ID firstLog) = replicate n Heartbeat"
  by (induction n) (simp_all add: pollTick_skips_second)

text \<open>
  C3. A log row whose id is below the cursor is never emitted. The observer attaches
  when the deployment has one log, with an id starting in \<^verbatim>\<open>f\<close>; a second log is
  appended later with an id starting in \<^verbatim>\<open>0\<close>. Every poll reads both rows, and
  however many polls follow, the stream carries the first log and heartbeats only.
\<close>

theorem stream_skips_log_below_cursor:
  "service_GetDeploymentLogs None storeLater example_id 100 = Inr [firstLog, secondLog]
   \<and> (\<forall>n. streamDeploymentLogs example_id (None, storeAtAttach) (replicate n (None, storeLater))
          = Connected example_id # LogEvent firstLog # replicate n Heartbeat)"
proof -
  have a: "service_GetDeploymentLogs None storeLater example_id 100 = Inr [firstLog, secondLog]"
    by code_simp
  have b: "service_GetDeploymentLogs None storeAtAttach example_id 50 = Inr [firstLog]"
    by code_simp
  have c: "emitInitial [firstLog] nilUUID = ([LogEvent firstLog], log_ID firstLog)"
    by code_simp
  show ?thesis
    by (simp add: a b c streamDeploymentLogs_def pollLoop_skips_second del: emitInitial.simps)
qed

section \<open>Properties of the env-file normalization\<close>

lemma Trim_trimBoth: "Trim s cutset = trimBoth (\<lambda>c. c \<in> set cutset) s"
  by (simp add: Trim_def trimBoth_def)

lemma last_dropWhile: "dropWhile p xs \<noteq> [] \<Longrightarrow> last (dropWhile p xs) = last xs"
  by (induction xs) (auto split: if_splits)

lemma trimBoth_ends:
  assumes "trimBoth p s \<noteq> []"
  shows "\<not> p (hd (trimBoth p s))" and "\<not> p (last (trimBoth p s))"
proof -
  let ?d = "dropWhile p s"
  let ?e = "dropWhile p (rev ?d)"
  from assms have e: "?e \<noteq> []" by (simp add: trimBoth_def)
  have d: "?d \<noteq> []"
  proof
    assume a: "?d = []"
    have "?e = dropWhile p (rev [])" by (simp only: a)
    with e show False by simp
  qed
  have "hd (trimBoth p s) = last ?e" using e by (simp add: trimBoth_def hd_rev)
  also have "\<dots> = last (rev ?d)" using e by (rule last_dropWhile)
  also have "\<dots> = hd ?d" using d by (simp add: last_rev)
  finally show "\<not> p (hd (trimBoth p s))" using d hd_dropWhile [of p s] by simp
  have "last (trimBoth p s) = hd ?e" using e by (simp add: trimBoth_def last_rev)
  then show "\<not> p (last (trimBoth p s))" using e hd_dropWhile [of p "rev ?d"] by simp
qed

lemma trimBoth_id:
  assumes "s \<noteq> []" "\<not> p (hd s)" "\<not> p (last s)"
  shows "trimBoth p s = s"
proof -
  from assms have a: "dropWhile p s = s" by (cases s) auto
  from assms have "rev s \<noteq> []" "\<not> p (hd (rev s))" by (simp_all add: hd_rev)
  then have "dropWhile p (rev s) = rev s" by (cases "rev s") auto
  with a show ?thesis by (simp add: trimBoth_def)
qed

lemma trimBoth_Nil [simp]: "trimBoth p [] = []"
  by (simp add: trimBoth_def)

lemma trimBoth_idem: "trimBoth p (trimBoth p s) = trimBoth p s"
proof (cases "trimBoth p s = []")
  case True
  then show ?thesis by simp
next
  case False
  then show ?thesis
    using trimBoth_ends [of p s] by (intro trimBoth_id) simp_all
qed

lemma set_trimBoth: "set (trimBoth p s) \<subseteq> set s"
proof -
  have "set (dropWhile p (rev (dropWhile p s))) \<subseteq> set (rev (dropWhile p s))"
    by (auto dest: set_dropWhileD)
  also have "\<dots> \<subseteq> set s" by (auto dest: set_dropWhileD)
  finally show ?thesis by (simp add: trimBoth_def)
qed


lemma leading_Some:
  "leading es s = Some e \<Longrightarrow> e \<in> set es \<and> e \<noteq> [] \<and> take (length e) s = e"
  by (auto simp: leading_def find_Some_iff)

lemma leading_None_iff:
  "(leading es s = None) = (\<forall>e\<in>set es. e = [] \<or> take (length e) s \<noteq> e)"
  by (auto simp: leading_def find_None_iff)

lemma leadingLength_0: "(leadingLength es s = 0) = (leading es s = None)"
  by (cases "leading es s") (auto simp: leadingLength_def dest: leading_Some)

lemma stripLeading_id: "leading es s = None \<Longrightarrow> stripLeading es s = s"
  by (subst stripLeading.simps) (simp add: leadingLength_0)

lemma stripLeading_step:
  assumes "leading es s \<noteq> None"
  shows "stripLeading es s = stripLeading es (drop (leadingLength es s) s)"
proof -
  from assms have "leadingLength es s \<noteq> 0" by (simp add: leadingLength_0)
  then show ?thesis by (subst stripLeading.simps) simp
qed

lemma stripLeading_suffix: "\<exists>a. s = a @ stripLeading es s"
proof (induction es s rule: stripLeading.induct)
  case (1 es s)
  show ?case
  proof (cases "leading es s = None")
    case True
    then have "stripLeading es s = s" by (rule stripLeading_id)
    then show ?thesis by simp
  next
    case False
    let ?n = "leadingLength es s"
    from False have "?n \<noteq> 0" by (simp add: leadingLength_0)
    with 1 obtain a where a: "drop ?n s = a @ stripLeading es (drop ?n s)"
      by blast
    have "s = take ?n s @ drop ?n s" by simp
    with a have "s = take ?n s @ a @ stripLeading es (drop ?n s)" by simp
    with stripLeading_step [OF False] have "s = (take ?n s @ a) @ stripLeading es s"
      by simp
    then show ?thesis by blast
  qed
qed

lemma leading_stripLeading: "leading es (stripLeading es s) = None"
proof (induction es s rule: stripLeading.induct)
  case (1 es s)
  show ?case
  proof (cases "leading es s = None")
    case True
    then show ?thesis by (simp add: stripLeading_id)
  next
    case False
    then have "leadingLength es s \<noteq> 0" by (simp add: leadingLength_0)
    with 1 have "leading es (stripLeading es (drop (leadingLength es s) s)) = None"
      by blast
    with stripLeading_step [OF False] show ?thesis by simp
  qed
qed

lemma leading_prefix:
  assumes "leading es (y @ b) = None"
  shows "leading es y = None"
proof -
  have "e = [] \<or> take (length e) y \<noteq> e" if e: "e \<in> set es" for e
  proof (rule ccontr)
    assume "\<not> (e = [] \<or> take (length e) y \<noteq> e)"
    then have ne: "e \<noteq> []" and t: "take (length e) y = e" by simp_all
    have "length (take (length e) y) \<le> length y" by simp
    with t have "length e \<le> length y" by simp
    then have "take (length e) (y @ b) = e" using t by simp
    with assms e ne show False by (auto simp: leading_None_iff)
  qed
  then show ?thesis by (simp add: leading_None_iff)
qed

lemma leading_before_sep:
  assumes sep: "\<forall>e\<in>set es. c \<notin> set e" and k: "leading es k = None"
  shows "leading es (k @ c # v) = None"
proof -
  have "e = [] \<or> take (length e) (k @ c # v) \<noteq> e" if e: "e \<in> set es" for e
  proof (rule ccontr)
    assume "\<not> (e = [] \<or> take (length e) (k @ c # v) \<noteq> e)"
    then have ne: "e \<noteq> []" and t: "take (length e) (k @ c # v) = e" by simp_all
    show False
    proof (cases "length e \<le> length k")
      case True
      with t have "take (length e) k = e" by simp
      with k e ne show False by (auto simp: leading_None_iff)
    next
      case False
      then have "take (length e) (k @ c # v) = k @ take (length e - length k) (c # v)"
        by simp
      moreover from False have "take (length e - length k) (c # v)
                                  = c # take (length e - length k - 1) v"
        by (cases "length e - length k") simp_all
      ultimately have "c \<in> set (take (length e) (k @ c # v))" by simp
      with t have "c \<in> set e" by simp
      with sep e show False by blast
    qed
  qed
  then show ?thesis by (simp add: leading_None_iff)
qed

text \<open>A string with no white space at either end, and what the trim leaves.\<close>

lemma TrimSpace_infix: "\<exists>a b. s = a @ TrimSpace s @ b"
proof -
  obtain a where a: "s = a @ stripLeading spaceSeqs s"
    using stripLeading_suffix by blast
  obtain c where c: "rev (stripLeading spaceSeqs s)
                       = c @ stripLeading (map rev spaceSeqs) (rev (stripLeading spaceSeqs s))"
    using stripLeading_suffix by blast
  from c have "rev (rev (stripLeading spaceSeqs s))
                  = rev (c @ stripLeading (map rev spaceSeqs) (rev (stripLeading spaceSeqs s)))"
    by (rule arg_cong)
  then have "stripLeading spaceSeqs s = TrimSpace s @ rev c"
    by (simp add: TrimSpace_def)
  with a have "s = a @ TrimSpace s @ rev c" by simp
  then show ?thesis by blast
qed

lemma set_TrimSpace: "set (TrimSpace s) \<subseteq> set s"
proof -
  obtain a b where "s = a @ TrimSpace s @ b" using TrimSpace_infix by blast
  then have "set s = set (a @ TrimSpace s @ b)" by (rule arg_cong)
  then show ?thesis by auto
qed

lemma TrimSpace_no_space:
  "noSpaceAtEnds (TrimSpace s)"
proof -
  let ?x = "stripLeading spaceSeqs s"
  obtain c where c: "rev ?x = c @ stripLeading (map rev spaceSeqs) (rev ?x)"
    using stripLeading_suffix by blast
  then have "rev (rev ?x) = rev (c @ stripLeading (map rev spaceSeqs) (rev ?x))"
    by (rule arg_cong)
  then have x: "?x = TrimSpace s @ rev c"
    by (simp add: TrimSpace_def)
  have "leading spaceSeqs ?x = None" by (rule leading_stripLeading)
  then have "leading spaceSeqs (TrimSpace s @ rev c) = None"
    by (simp only: x [symmetric])
  then have l: "leading spaceSeqs (TrimSpace s) = None"
    by (rule leading_prefix)
  have "leading (map rev spaceSeqs) (rev (TrimSpace s)) = None"
    by (simp add: TrimSpace_def leading_stripLeading)
  with l show ?thesis by (simp add: noSpaceAtEnds_def)
qed

lemma TrimSpace_id: "noSpaceAtEnds s \<Longrightarrow> TrimSpace s = s"
  by (simp add: noSpaceAtEnds_def TrimSpace_def stripLeading_id)

lemma TrimSpace_idem: "TrimSpace (TrimSpace s) = TrimSpace s"
  by (rule TrimSpace_id) (rule TrimSpace_no_space)

lemma TrimSpace_fixed: "TrimSpace s = s \<Longrightarrow> noSpaceAtEnds s"
  using TrimSpace_no_space [of s] by simp

lemma TrimSpace_Nil: "TrimSpace [] = []"
  using set_TrimSpace [of "[]"] by simp

text \<open>
  A string that begins with no white space keeps its beginning when it is trimmed.
\<close>

lemma TrimSpace_keeps_start:
  assumes "leading spaceSeqs s = None"
  shows "\<exists>b. s = TrimSpace s @ b"
proof -
  from assms have x: "stripLeading spaceSeqs s = s" by (rule stripLeading_id)
  obtain c where "rev s = c @ stripLeading (map rev spaceSeqs) (rev s)"
    using stripLeading_suffix by blast
  then have "rev (rev s) = rev (c @ stripLeading (map rev spaceSeqs) (rev s))"
    by (rule arg_cong)
  then have "s = TrimSpace s @ rev c"
    using x by (simp add: TrimSpace_def)
  then show ?thesis by blast
qed

lemma spaceSeqs_no_eq: "\<forall>e\<in>set spaceSeqs. CHR ''='' \<notin> set e"
proof -
  have "list_all (\<lambda>e. CHR ''='' \<notin> set e) spaceSeqs" by code_simp
  then show ?thesis by (simp add: list_all_iff)
qed

lemma rev_spaceSeqs_no_eq: "\<forall>e\<in>set (map rev spaceSeqs). CHR ''='' \<notin> set e"
  using spaceSeqs_no_eq by auto

lemma Split_nonempty: "Split s sep \<noteq> []"
  by (induction s) (auto split: list.splits)

lemma Split_no_sep: "l \<in> set (Split s sep) \<Longrightarrow> sep \<notin> set l"
proof (induction s arbitrary: l)
  case Nil
  then show ?case by simp
next
  case (Cons c cs)
  show ?case
  proof (cases "c = sep")
    case True
    with Cons show ?thesis by auto
  next
    case False
    obtain x xs where e: "Split cs sep = x # xs"
      using Split_nonempty [of cs sep] by (cases "Split cs sep") auto
    with Cons.prems False have "l = c # x \<or> l \<in> set xs" by simp
    then show ?thesis
    proof
      assume "l = c # x"
      moreover have "sep \<notin> set x" using Cons.IH [of x] e by simp
      ultimately show ?thesis using False by simp
    next
      assume "l \<in> set xs"
      then show ?thesis using Cons.IH [of l] e by simp
    qed
  qed
qed

lemma Split_single: "sep \<notin> set x \<Longrightarrow> Split x sep = [x]"
  by (induction x) auto

lemma Split_append_sep: "sep \<notin> set x \<Longrightarrow> Split (x @ sep # r) sep = x # Split r sep"
  by (induction x) auto

lemma Split_Join:
  "ls \<noteq> [] \<Longrightarrow> \<forall>l\<in>set ls. sep \<notin> set l \<Longrightarrow> Split (Join ls [sep]) sep = ls"
proof (induction ls "[sep]" rule: Join.induct)
  case 1
  then show ?case by simp
next
  case (2 x)
  then show ?case by (simp add: Split_single)
next
  case (3 x y ys)
  then show ?case by (simp add: Split_append_sep)
qed

lemma map_filter_fix: "\<forall>x\<in>set xs. f x = Some x \<Longrightarrow> List.map_filter f xs = xs"
  by (induction xs) (simp_all add: List.map_filter_simps)

lemma set_map_filter: "y \<in> set (List.map_filter f xs) \<Longrightarrow> \<exists>x\<in>set xs. f x = Some y"
  by (induction xs) (auto simp: List.map_filter_simps split: option.splits)


lemma cut_at_first:
  "sep \<notin> set k \<Longrightarrow>
   dropWhile (\<lambda>c. c \<noteq> sep) (k @ sep # v) = sep # v
   \<and> takeWhile (\<lambda>c. c \<noteq> sep) (k @ sep # v) = k"
  by (induction k) auto

lemma SplitN2_at_first:
  "sep \<notin> set k \<Longrightarrow> SplitN2 (k @ sep # v) sep = [k, v]"
  by (simp add: SplitN2_def cut_at_first)

lemma SplitN2_contains:
  assumes "sep \<in> set line"
  shows "\<exists>v. SplitN2 line sep = [takeWhile (\<lambda>c. c \<noteq> sep) line, v]
             \<and> line = takeWhile (\<lambda>c. c \<noteq> sep) line @ sep # v"
proof -
  have ne: "dropWhile (\<lambda>c. c \<noteq> sep) line \<noteq> []"
    using assms by (simp add: dropWhile_eq_Nil_conv)
  then obtain c v where e: "dropWhile (\<lambda>c. c \<noteq> sep) line = c # v"
    by (cases "dropWhile (\<lambda>c. c \<noteq> sep) line") auto
  have "\<not> (hd (dropWhile (\<lambda>c. c \<noteq> sep) line) \<noteq> sep)"
    using ne by (rule hd_dropWhile)
  with e have c: "c = sep" by simp
  have "line = takeWhile (\<lambda>c. c \<noteq> sep) line @ dropWhile (\<lambda>c. c \<noteq> sep) line" by simp
  with e c have "line = takeWhile (\<lambda>c. c \<noteq> sep) line @ sep # v" by simp
  moreover have "SplitN2 line sep = [takeWhile (\<lambda>c. c \<noteq> sep) line, v]"
    using e by (simp add: SplitN2_def)
  ultimately show ?thesis by blast
qed

text \<open>The shape of a line that the loop keeps.\<close>

lemma processLine_Some:
  assumes "processLine l0 = Some out"
  shows "\<exists>k v. out = k @ CHR ''='' # v \<and> CHR ''='' \<notin> set k \<and> TrimSpace k = k
               \<and> (k \<noteq> [] \<longrightarrow> hd k \<noteq> CHR ''#'') \<and> Trim v quotes = v
               \<and> set k \<subseteq> set l0 \<and> set v \<subseteq> set l0"
proof -
  let ?line = "TrimSpace l0"
  from assms have ne: "?line \<noteq> []" and nohash: "take 1 ?line \<noteq> ''#''"
    and eq: "CHR ''='' \<in> set ?line"
    by (auto simp: processLine_def Let_def split: if_splits)
  let ?kraw = "takeWhile (\<lambda>c. c \<noteq> CHR ''='') ?line"
  from SplitN2_contains [OF eq] obtain v0 where
    sp: "SplitN2 ?line CHR ''='' = [?kraw, v0]" and line: "?line = ?kraw @ CHR ''='' # v0"
    by blast
  let ?k = "TrimSpace ?kraw"
  let ?v = "Trim (TrimSpace v0) quotes"
  from assms ne nohash eq sp have out: "out = ?k @ CHR ''='' # ?v"
    by (simp add: processLine_def Let_def)
  have sub_line: "set ?line \<subseteq> set l0" by (rule set_TrimSpace)
  have k0_sub: "set ?kraw \<subseteq> set ?line" by (auto dest: set_takeWhileD)
  have k_sub: "set ?k \<subseteq> set ?kraw" by (rule set_TrimSpace)
  have "set (?kraw @ CHR ''='' # v0) = set ?line"
    by (rule arg_cong [where f = set, OF line [symmetric]])
  then have v0_sub: "set v0 \<subseteq> set ?line" by auto
  have v_sub: "set ?v \<subseteq> set v0"
    using set_trimBoth [of "\<lambda>c. c \<in> set quotes" "TrimSpace v0"] set_TrimSpace [of v0]
    by (auto simp: Trim_trimBoth)
  have noeq: "CHR ''='' \<notin> set ?k"
    using k_sub by (auto dest: set_takeWhileD)
  have kk: "TrimSpace ?k = ?k" by (rule TrimSpace_idem)
  have vv: "Trim ?v quotes = ?v" by (simp add: Trim_trimBoth trimBoth_idem)
  have hash: "hd ?k \<noteq> CHR ''#''" if "?k \<noteq> []"
  proof -
    have "leading spaceSeqs ?line = None"
      using TrimSpace_no_space [of l0] by (simp add: noSpaceAtEnds_def)
    then have "leading spaceSeqs (?kraw @ CHR ''='' # v0) = None"
      by (simp only: line [symmetric])
    then have "leading spaceSeqs ?kraw = None" by (rule leading_prefix)
    then obtain b where b: "?kraw = ?k @ b" using TrimSpace_keeps_start by blast
    from that have "hd (?k @ b) = hd ?k" by simp
    with b have "hd ?kraw = hd ?k" by simp
    moreover from b that have "?kraw \<noteq> []" by auto
    then have "hd ?kraw = hd ?line" by (cases ?line) (auto split: if_splits)
    moreover from nohash ne have "hd ?line \<noteq> CHR ''#''" by (cases ?line) auto
    ultimately show ?thesis by simp
  qed
  from out noeq kk hash vv k_sub k0_sub sub_line v_sub v0_sub show ?thesis
    by (intro exI [of _ ?k] exI [of _ ?v]) blast
qed

lemma processLine_fixpoint:
  assumes out: "out = k @ CHR ''='' # v" and noeq: "CHR ''='' \<notin> set k"
    and kk: "TrimSpace k = k" and hash: "k \<noteq> [] \<longrightarrow> hd k \<noteq> CHR ''#''"
    and vv: "Trim v quotes = v" and vs: "TrimSpace v = v"
  shows "processLine out = Some out"
proof -
  have ne: "out \<noteq> []" using out by simp
  from kk have "leading spaceSeqs k = None"
    using TrimSpace_fixed [of k] by (simp add: noSpaceAtEnds_def)
  then have front: "leading spaceSeqs out = None"
    unfolding out using spaceSeqs_no_eq by (intro leading_before_sep) 
  from vs have "leading (map rev spaceSeqs) (rev v) = None"
    using TrimSpace_fixed [of v] by (simp add: noSpaceAtEnds_def)
  then have "leading (map rev spaceSeqs) (rev v @ CHR ''='' # rev k) = None"
    using rev_spaceSeqs_no_eq by (intro leading_before_sep)
  then have rear: "leading (map rev spaceSeqs) (rev out) = None"
    by (simp add: out)
  have t: "TrimSpace out = out"
    using front rear by (intro TrimSpace_id) (simp add: noSpaceAtEnds_def)
  have nohash: "take 1 out \<noteq> ''#''"
  proof (cases "k = []")
    case True
    with out show ?thesis by simp
  next
    case False
    with hash out show ?thesis by (cases k) auto
  qed
  have eq: "CHR ''='' \<in> set out" using out by simp
  have sp: "SplitN2 out CHR ''='' = [k, v]"
    using noeq by (simp add: out SplitN2_at_first)
  show ?thesis
    using t ne nohash eq sp kk vs vv out
    by (simp add: processLine_def Let_def)
qed

lemma lineValue_shape: "CHR ''='' \<notin> set k \<Longrightarrow> lineValue (k @ CHR ''='' # v) = v"
  by (simp add: lineValue_def cut_at_first)

text \<open>
  C7. Normalizing twice gives the same text as normalizing once for every input in
  which no value of the normalized text (what follows the first \<^verbatim>\<open>=\<close> of a
  line) begins or ends with white space, where white space is what
  \<^verbatim>\<open>strings.TrimSpace\<close> removes: the runes of \<^verbatim>\<open>unicode.IsSpace\<close>, in UTF-8.
  The quotes are removed after the white space is trimmed, so a value quoted with a
  blank inside, as in \<^verbatim>\<open>K=" a"\<close>, keeps the blank in the first pass and loses it
  in the second.
\<close>

theorem processEnvironmentVariables_idempotent_on_trimmed_values:
  assumes "\<forall>l\<in>set (Split (processEnvironmentVariables s) newline).
             TrimSpace (lineValue l) = lineValue l"
  shows "processEnvironmentVariables (processEnvironmentVariables s)
           = processEnvironmentVariables s"
proof -
  let ?ls = "List.map_filter processLine (Split s newline)"
  show ?thesis
  proof (cases "?ls = []")
    case True
    then have "processEnvironmentVariables s = []"
      by (simp add: processEnvironmentVariables_def)
    moreover have "processEnvironmentVariables [] = []"
      by (simp add: processEnvironmentVariables_def List.map_filter_simps processLine_def
            TrimSpace_Nil)
    ultimately show ?thesis by simp
  next
    case False
    have nonl: "newline \<notin> set l" if "l \<in> set ?ls" for l
    proof -
      from that obtain l0 where l0: "l0 \<in> set (Split s newline)" "processLine l0 = Some l"
        using set_map_filter by fastforce
      from processLine_Some [OF l0(2)] obtain k v where
        "l = k @ CHR ''='' # v" "set k \<subseteq> set l0" "set v \<subseteq> set l0" by blast
      moreover have "newline \<notin> set l0" using l0(1) by (rule Split_no_sep)
      ultimately show ?thesis by (auto simp: newline_def)
    qed
    then have roundtrip: "Split (processEnvironmentVariables s) newline = ?ls"
      using False by (simp add: processEnvironmentVariables_def Split_Join)
    have "processLine l = Some l" if "l \<in> set ?ls" for l
    proof -
      from that obtain l0 where l0: "processLine l0 = Some l"
        using set_map_filter by fastforce
      from processLine_Some [OF l0] obtain k v where
        kv: "l = k @ CHR ''='' # v" "CHR ''='' \<notin> set k" "TrimSpace k = k"
          "k \<noteq> [] \<longrightarrow> hd k \<noteq> CHR ''#''" "Trim v quotes = v" by blast
      from assms that roundtrip have "TrimSpace (lineValue l) = lineValue l" by simp
      with kv have "TrimSpace v = v" by (simp add: lineValue_shape)
      with kv show ?thesis by (intro processLine_fixpoint [of l k v]) simp_all
    qed
    then have "List.map_filter processLine ?ls = ?ls"
      by (intro map_filter_fix) simp
    with roundtrip show ?thesis
      by (simp add: processEnvironmentVariables_def)
  qed
qed

theorem processEnvironmentVariables_idempotent_on_trimmed_values_witness:
  "processEnvironmentVariables envFile = ''A=1'' @ [newline] @ ''B=two'' @ [newline] @ ''C=three''
   \<and> list_all (\<lambda>l. TrimSpace (lineValue l) = lineValue l)
         (Split (processEnvironmentVariables envFile) newline)
   \<and> processEnvironmentVariables (processEnvironmentVariables envFile)
       = processEnvironmentVariables envFile"
proof -
  have a: "processEnvironmentVariables envFile
             = ''A=1'' @ [newline] @ ''B=two'' @ [newline] @ ''C=three''"
    by code_simp
  have b: "list_all (\<lambda>l. TrimSpace (lineValue l) = lineValue l)
             (Split (processEnvironmentVariables envFile) newline)"
    by code_simp
  then have c: "\<forall>l\<in>set (Split (processEnvironmentVariables envFile) newline).
                  TrimSpace (lineValue l) = lineValue l"
    by (simp add: list_all_iff)
  from a b processEnvironmentVariables_idempotent_on_trimmed_values [OF c]
  show ?thesis by blast
qed

text \<open>
  The same happens with a white-space rune outside ASCII: a quoted value that begins
  with a no-break space (U+00A0, the bytes C2 A0) keeps it in the first pass and loses
  it in the second.
\<close>

lemma processEnvironmentVariables_trims_no_break_space:
  "processEnvironmentVariables envQuotedNBSP = ''K='' @ [CHR 0xC2, CHR 0xA0] @ ''a''
   \<and> processEnvironmentVariables (processEnvironmentVariables envQuotedNBSP) = ''K=a''"
  by code_simp

text \<open>The normalization is not idempotent on \<^verbatim>\<open>K=" a"\<close>.\<close>

theorem processEnvironmentVariables_not_idempotent_counterexample:
  "processEnvironmentVariables envQuotedBlank = ''K= a''
   \<and> processEnvironmentVariables (processEnvironmentVariables envQuotedBlank) = ''K=a''
   \<and> processEnvironmentVariables (processEnvironmentVariables envQuotedBlank)
       \<noteq> processEnvironmentVariables envQuotedBlank"
  by code_simp

end
